theory Spec2Isabelle
  imports Main "HOL-Library.Sublist"
begin

section \<open>The Piper TTS server: model of \<open>server.py\<close>\<close>

text \<open>
  The server has two handlers of interest, \<open>health_check\<close> and \<open>synthesize\<close>. Both act on
  the host: they probe and change the filesystem, start the engine as a child process and
  print to the log. The model threads a \<open>world\<close> through each handler: the files that
  exist, and the list of every operation the handler performed on the host, in order.
  What the host answers (the names it generates, what the engine does, whether a call is
  refused) is read from an \<open>env\<close> record, one field per answer. A call that can raise
  returns the exception or its value, so that every way out of a handler is a value of the
  model.
\<close>

subsection \<open>Data\<close>

type_synonym path = string

text \<open>A Python \<open>str\<close> that comes with the request is a sequence of code points; \<open>len\<close>
  counts them. A Python \<open>bytes\<close> is a \<open>string\<close>, whose characters are bytes. The text of a
  detail or of a printed line is a \<open>string\<close> too: its bytes are the UTF-8 encoding of the
  text.\<close>

type_synonym pystr = "nat list"

type_synonym bytes = string

record inode =
  fsize :: nat
  fexec :: bool

type_synonym filesystem = "path \<rightharpoonup> inode"

text \<open>The operations on the host. \<open>CreateTemp\<close> is logged when the file was created;
  \<open>Chmod\<close> and \<open>Unlink\<close> say whether the call succeeded; the others are logged as calls.\<close>

datatype event =
    Exists path
  | Access path
  | Getcwd
  | Listdir path
  | Getsize path
  | CreateTemp path
  | WriteText path pystr
  | Chmod path bool
  | OpenRead path
  | Run "string list"
  | Print string
  | Sleep
  | Unlink path bool

record world =
  files :: filesystem
  trace :: "event list"

text \<open>
  The exceptions that occur in the handlers. \<open>TimeoutExpired\<close> carries the command;
  \<open>CalledProcessError\<close> the return code, the command and the two captured streams;
  \<open>UnicodeDecodeError\<close> the bytes, the first and the last position (exclusive) of the
  offending bytes and the reason; \<open>UnicodeEncodeError\<close> the text and the two positions;
  \<open>OtherError\<close> is any other exception that a call to the host raises, with its message.
\<close>

datatype exn =
    HTTPException nat string
  | TimeoutExpired "string list"
  | CalledProcessError int "string list" bytes bytes
  | UnicodeDecodeError bytes nat nat string
  | UnicodeEncodeError pystr nat nat
  | OtherError string

text \<open>What \<open>subprocess.run\<close> does with the engine: it ends with a return code and the two
  captured streams, it runs into the timeout, or it cannot be started.\<close>

datatype proc_outcome =
    Exited int bytes bytes
  | TimedOut
  | LaunchFault string

datatype response =
  FileResponse path string string "(string \<times> string) list"

text \<open>The host. The fields whose name ends in \<open>error\<close> hold the message of the exception
  that the call raises on this host, if it raises; \<open>str_exc\<close> is \<open>str\<close> of an exception and
  \<open>isspace\<close> is \<open>str.isspace\<close>, which the libraries decide.\<close>

record env =
  platform_system :: string
  isspace :: "nat \<Rightarrow> bool"
  str_exc :: "exn \<Rightarrow> string"
  uuid4_str :: string
  uuid4_hex :: string
  temp_name :: string
  mkstemp_error :: "string option"
  write_error :: "string option"
  chmod_error :: "string option"
  open_error :: "string option"
  print_error :: "string \<Rightarrow> string option"
  piper_outcome :: proc_outcome
  piper_writes :: "nat option"
  unlink_refused_early :: bool
  unlink_refused_final :: bool
  getcwd :: string
  getcwd_error :: "string option"
  listdir_dot :: "string list"
  listdir_error :: "string option"

record health_report =
  status :: string
  piper_found :: bool
  piper_executable :: bool
  model_found :: bool
  piper_path :: string
  model_path :: string
  platform :: string
  working_directory :: string
  files_in_directory :: "string list"

subsection \<open>Module-level configuration\<close>

definition IS_WINDOWS :: "env \<Rightarrow> bool" where
  "IS_WINDOWS e = (platform_system e = ''Windows'')"

definition PIPER_PATH :: "env \<Rightarrow> path" where
  "PIPER_PATH e =
     (if IS_WINDOWS e then ''C:/Users/User/Documents/piper/piper.exe'' else ''./piper'')"

definition MODEL_PATH :: "env \<Rightarrow> path" where
  "MODEL_PATH e =
     (if IS_WINDOWS e then ''C:/Users/User/Documents/piper/exported_model.onnx''
      else ''./exported_model.onnx'')"

subsection \<open>Host operations\<close>

definition log :: "event \<Rightarrow> world \<Rightarrow> world" where
  "log ev w = w\<lparr>trace := trace w @ [ev]\<rparr>"

text \<open>Sequencing: when the first step raises, the exception goes on and the rest is
  skipped.\<close>

definition and_then ::
    "(exn + 'a) \<times> world \<Rightarrow> ('a \<Rightarrow> world \<Rightarrow> (exn + 'b) \<times> world) \<Rightarrow> (exn + 'b) \<times> world" where
  "and_then r k = (case r of (Inl ex, w) \<Rightarrow> (Inl ex, w) | (Inr x, w) \<Rightarrow> k x w)"

definition os_path_exists :: "path \<Rightarrow> world \<Rightarrow> bool \<times> world" where
  "os_path_exists p w = (p \<in> dom (files w), log (Exists p) w)"

definition os_access_x :: "path \<Rightarrow> world \<Rightarrow> bool \<times> world" where
  "os_access_x p w =
     ((case files w p of None \<Rightarrow> False | Some f \<Rightarrow> fexec f), log (Access p) w)"

text \<open>\<open>os.chmod(p, 0o755)\<close>: refused by the host with a message, or the file is missing,
  or the file becomes executable.\<close>

definition os_chmod :: "env \<Rightarrow> path \<Rightarrow> world \<Rightarrow> string option \<times> world" where
  "os_chmod e p w =
     (case chmod_error e of
        Some msg \<Rightarrow> (Some msg, log (Chmod p False) w)
      | None \<Rightarrow>
          (case files w p of
             None \<Rightarrow> (Some ''[Errno 2] No such file or directory'', log (Chmod p False) w)
           | Some f \<Rightarrow>
               (None, log (Chmod p True) (w\<lparr>files := (files w)(p \<mapsto> f\<lparr>fexec := True\<rparr>)\<rparr>))))"

text \<open>\<open>os.unlink(p)\<close> inside \<open>try: ... except: pass\<close>: the file is removed when it exists
  and the host does not refuse; every failure is swallowed.\<close>

definition unlink_quietly :: "bool \<Rightarrow> path \<Rightarrow> world \<Rightarrow> world" where
  "unlink_quietly refused p w =
     (if p \<in> dom (files w) \<and> \<not> refused
      then log (Unlink p True) (w\<lparr>files := (files w)(p := None)\<rparr>)
      else log (Unlink p False) w)"

text \<open>\<open>print(s)\<close>: the host may refuse the line, and then the call raises.\<close>

definition print :: "env \<Rightarrow> string \<Rightarrow> world \<Rightarrow> (exn + unit) \<times> world" where
  "print e s w =
     ((case print_error e s of None \<Rightarrow> Inr () | Some msg \<Rightarrow> Inl (OtherError msg)),
      log (Print s) w)"

subsection \<open>Encoding and decoding\<close>

text \<open>The number of bytes of the UTF-8 encoding of a text.\<close>

definition utf8_width :: "nat \<Rightarrow> nat" where
  "utf8_width c = (if c < 128 then 1 else if c < 2048 then 2 else if c < 65536 then 3 else 4)"

definition utf8_size :: "pystr \<Rightarrow> nat" where
  "utf8_size t = sum_list (map utf8_width t)"

text \<open>Writing a text in UTF-8 raises on a surrogate code point: the error names the first
  run of surrogates.\<close>

definition surrogate :: "nat \<Rightarrow> bool" where
  "surrogate c = (55296 \<le> c \<and> c \<le> 57343)"

definition encode_error :: "pystr \<Rightarrow> exn option" where
  "encode_error t =
     (if list_ex surrogate t
      then (let start = length (takeWhile (\<lambda>c. \<not> surrogate c) t)
            in Some (UnicodeEncodeError t start
                       (start + length (takeWhile surrogate (drop start t)))))
      else None)"

text \<open>\<open>bytes.decode()\<close>, which is strict UTF-8. \<open>utf8_scan\<close> walks over the bytes as
  CPython's decoder does and returns the first error: where the offending bytes start,
  where they end, and why. A text is represented by its UTF-8 bytes, so that bytes that
  decode give the text that consists of them.\<close>

definition continuation :: "nat \<Rightarrow> bool" where
  "continuation b = (128 \<le> b \<and> b < 192)"

definition second_of_three :: "nat \<Rightarrow> nat \<Rightarrow> bool" where
  "second_of_three a b =
     (continuation b \<and> \<not> (a = 224 \<and> b < 160) \<and> \<not> (a = 237 \<and> 160 \<le> b))"

definition second_of_four :: "nat \<Rightarrow> nat \<Rightarrow> bool" where
  "second_of_four a b =
     (continuation b \<and> \<not> (a = 240 \<and> b < 144) \<and> \<not> (a = 244 \<and> 144 \<le> b))"

fun utf8_scan :: "nat \<Rightarrow> nat list \<Rightarrow> (nat \<times> nat \<times> string) option" where
  "utf8_scan i [] = None"
| "utf8_scan i (a # bs) =
     (if a < 128 then utf8_scan (i + 1) bs
      else if a < 194 then Some (i, i + 1, ''invalid start byte'')
      else if a < 224 then
        (case bs of
           [] \<Rightarrow> Some (i, i + 1, ''unexpected end of data'')
         | b # bs1 \<Rightarrow>
             if \<not> continuation b then Some (i, i + 1, ''invalid continuation byte'')
             else utf8_scan (i + 2) bs1)
      else if a < 240 then
        (case bs of
           [] \<Rightarrow> Some (i, i + 1, ''unexpected end of data'')
         | b # bs1 \<Rightarrow>
             if \<not> second_of_three a b then Some (i, i + 1, ''invalid continuation byte'')
             else
               (case bs1 of
                  [] \<Rightarrow> Some (i, i + 2, ''unexpected end of data'')
                | c # bs2 \<Rightarrow>
                    if \<not> continuation c then Some (i, i + 2, ''invalid continuation byte'')
                    else utf8_scan (i + 3) bs2))
      else if a < 245 then
        (case bs of
           [] \<Rightarrow> Some (i, i + 1, ''unexpected end of data'')
         | b # bs1 \<Rightarrow>
             if \<not> second_of_four a b then Some (i, i + 1, ''invalid continuation byte'')
             else
               (case bs1 of
                  [] \<Rightarrow> Some (i, i + 2, ''unexpected end of data'')
                | c # bs2 \<Rightarrow>
                    if \<not> continuation c then Some (i, i + 2, ''invalid continuation byte'')
                    else
                      (case bs2 of
                         [] \<Rightarrow> Some (i, i + 3, ''unexpected end of data'')
                       | d # bs3 \<Rightarrow>
                           if \<not> continuation d
                           then Some (i, i + 3, ''invalid continuation byte'')
                           else utf8_scan (i + 4) bs3)))
      else Some (i, i + 1, ''invalid start byte''))"

definition valid_utf8 :: "bytes \<Rightarrow> bool" where
  "valid_utf8 bs = (utf8_scan 0 (map of_char bs) = None)"

definition decode :: "bytes \<Rightarrow> exn + string" where
  "decode bs =
     (case utf8_scan 0 (map of_char bs) of
        None \<Rightarrow> Inr bs
      | Some (start, stop, reason) \<Rightarrow> Inl (UnicodeDecodeError bs start stop reason))"

text \<open>\<open>str\<close> of a natural number: its decimal digits.\<close>

definition digit :: "nat \<Rightarrow> char" where
  "digit d = ''0123456789'' ! d"

fun digits :: "nat \<Rightarrow> string" where
  "digits n = (if n < 10 then [digit n] else digits (n div 10) @ [digit (n mod 10)])"

declare digits.simps [simp del]

subsection \<open>\<open>health_check\<close>\<close>

text \<open>The entries of the report are computed in the order of the source: \<open>os.getcwd()\<close>
  and \<open>os.listdir(".")\<close> come last, and when one of them raises no report is returned.\<close>

definition health_check :: "env \<Rightarrow> world \<Rightarrow> (exn + health_report) \<times> world" where
  "health_check e w0 =
     (let (piper_exists, w1) = os_path_exists (PIPER_PATH e) w0;
          (model_exists, w2) = os_path_exists (MODEL_PATH e) w1;
          (piper_exec, w3) =
            (if \<not> IS_WINDOWS e \<and> piper_exists then os_access_x (PIPER_PATH e) w2
             else (True, w2));
          st = (if piper_exists \<and> model_exists \<and> piper_exec then ''healthy''
                else ''unhealthy'');
          report = (\<lambda>listing.
            \<lparr>status = st, piper_found = piper_exists, piper_executable = piper_exec,
             model_found = model_exists, piper_path = PIPER_PATH e,
             model_path = MODEL_PATH e, platform = platform_system e,
             working_directory = getcwd e, files_in_directory = listing\<rparr>);
          w4 = log Getcwd w3
      in case getcwd_error e of
           Some msg \<Rightarrow> (Inl (OtherError msg), w4)
         | None \<Rightarrow>
             (let (dot_exists, w5) = os_path_exists ''.'' w4
              in if dot_exists
                 then (let w6 = log (Listdir ''.'') w5
                       in case listdir_error e of
                            Some msg \<Rightarrow> (Inl (OtherError msg), w6)
                          | None \<Rightarrow> (Inr (report (listdir_dot e)), w6))
                 else (Inr (report []), w5)))"

subsection \<open>\<open>synthesize\<close>\<close>

definition strip :: "env \<Rightarrow> pystr \<Rightarrow> pystr" where
  "strip e t = rev (dropWhile (isspace e) (rev (dropWhile (isspace e) t)))"

definition output_file :: "env \<Rightarrow> path" where
  "output_file e = ''output_'' @ uuid4_str e @ ''.wav''"

definition temp_file_path :: "env \<Rightarrow> path" where
  "temp_file_path e = temp_name e @ ''.txt''"

definition piper_command :: "env \<Rightarrow> string list" where
  "piper_command e = [PIPER_PATH e, ''--model'', MODEL_PATH e, ''--output_file'', output_file e]"

text \<open>Lines 78 to 80, \<open>with tempfile.NamedTemporaryFile(mode='w', suffix='.txt',
  delete=False, encoding='utf-8')\<close>: the file is created under the name the host picked,
  which ends in the suffix, and the text is written to it. Creating the file can raise, and
  then there is no file; writing it can raise, on a text that UTF-8 cannot encode or
  because the host refuses, and then the file stays as it was created, since it is not deleted
  on closing.\<close>

definition stage_input :: "env \<Rightarrow> pystr \<Rightarrow> world \<Rightarrow> (exn + unit) \<times> world" where
  "stage_input e t w0 =
     (case mkstemp_error e of
        Some msg \<Rightarrow> (Inl (OtherError msg), w0)
      | None \<Rightarrow>
          (let w1 = log (CreateTemp (temp_file_path e))
                      (w0\<lparr>files := (files w0)(temp_file_path e \<mapsto> \<lparr>fsize = 0, fexec = False\<rparr>)\<rparr>);
               w2 = log (WriteText (temp_file_path e) t) w1
           in case encode_error t of
                Some ex \<Rightarrow> (Inl ex, w2)
              | None \<Rightarrow>
                  (case write_error e of
                     Some msg \<Rightarrow> (Inl (OtherError msg), w2)
                   | None \<Rightarrow>
                       (Inr (),
                        w2\<lparr>files := (files w2)(temp_file_path e \<mapsto>
                                       \<lparr>fsize = utf8_size t, fexec = False\<rparr>)\<rparr>))))"

text \<open>Lines 91 to 94: \<open>os.chmod\<close> on the engine, inside a \<open>try\<close> of its own whose handler
  prints a warning and goes on.\<close>

definition make_executable :: "env \<Rightarrow> world \<Rightarrow> (exn + unit) \<times> world" where
  "make_executable e w =
     (case os_chmod e (PIPER_PATH e) w of
        (None, w') \<Rightarrow> (Inr (), w')
      | (Some msg, w') \<Rightarrow> print e (''Warning: Could not make piper executable: '' @ msg) w')"

text \<open>Lines 97 to 105: the staged file is opened and \<open>subprocess.run(..., check=True,
  timeout=30)\<close> is called with it as standard input. The engine is outside the program:
  what it does is read from the host. It may leave a file of some size at the output path,
  whatever its outcome, and touches no other file; with \<open>check=True\<close> a non-zero return
  code raises.\<close>

definition subprocess_run :: "env \<Rightarrow> world \<Rightarrow> (exn + (bytes \<times> bytes)) \<times> world" where
  "subprocess_run e w0 =
     (let w1 = log (OpenRead (temp_file_path e)) w0
      in case open_error e of
           Some msg \<Rightarrow> (Inl (OtherError msg), w1)
         | None \<Rightarrow>
             (let w2 = log (Run (piper_command e)) w1;
                  w3 = (case piper_writes e of
                          None \<Rightarrow> w2
                        | Some n \<Rightarrow>
                            w2\<lparr>files := (files w2)(output_file e \<mapsto>
                                           \<lparr>fsize = n, fexec = False\<rparr>)\<rparr>)
              in case piper_outcome e of
                   TimedOut \<Rightarrow> (Inl (TimeoutExpired (piper_command e)), w3)
                 | LaunchFault msg \<Rightarrow> (Inl (OtherError msg), w2)
                 | Exited rc out err \<Rightarrow>
                     (if rc \<noteq> 0
                      then (Inl (CalledProcessError rc (piper_command e) out err), w3)
                      else (Inr (out, err), w3))))"

text \<open>Lines 107 and 108: each captured stream is decoded and printed.\<close>

definition print_stream :: "env \<Rightarrow> string \<Rightarrow> bytes \<Rightarrow> world \<Rightarrow> (exn + unit) \<times> world" where
  "print_stream e label bs w =
     (case decode bs of
        Inl ex \<Rightarrow> (Inl ex, w)
      | Inr text \<Rightarrow> print e (label @ text) w)"

definition report_streams :: "env \<Rightarrow> bytes \<Rightarrow> bytes \<Rightarrow> world \<Rightarrow> (exn + unit) \<times> world" where
  "report_streams e out err w =
     and_then (print_stream e ''Piper stdout: '' out w)
       (\<lambda>_. print_stream e ''Piper stderr: '' err)"

text \<open>Lines 110 to 118: the output file must exist and have 1000 bytes or more.\<close>

definition verify_output :: "env \<Rightarrow> world \<Rightarrow> (exn + unit) \<times> world" where
  "verify_output e w0 =
     (let (out_exists, w1) = os_path_exists (output_file e) w0 in
      if \<not> out_exists
      then (Inl (HTTPException 500 ''Audio file was not generated''), w1)
      else
        (let file_size = (case files w1 (output_file e) of Some f \<Rightarrow> fsize f | None \<Rightarrow> 0);
             w2 = log (Getsize (output_file e)) w1
         in and_then
              (print e (''Generated audio file size: '' @ digits file_size @ '' bytes'') w2)
              (\<lambda>_ w3.
                 if file_size < 1000
                 then (Inl (HTTPException 500
                              ''Generated audio file appears to be empty or corrupted''), w3)
                 else (Inr (), w3))))"

text \<open>Lines 120 to 138: the pause, the removal of the staged input, and the response.\<close>

definition respond :: "env \<Rightarrow> world \<Rightarrow> (exn + response) \<times> world" where
  "respond e w0 =
     (let w1 = log Sleep w0;
          w2 = unlink_quietly (unlink_refused_early e) (temp_file_path e) w1
      in (Inr (FileResponse (output_file e) ''audio/wav''
                 (''speech_'' @ take 8 (uuid4_hex e) @ ''.wav'')
                 [(''Content-Disposition'', ''attachment''),
                  (''Cache-Control'', ''no-cache'')]), w2))"

text \<open>Lines 107 to 138, the rest of the \<open>try\<close> body once the engine has ended with
  return code zero.\<close>

definition deliver :: "env \<Rightarrow> bytes \<times> bytes \<Rightarrow> world \<Rightarrow> (exn + response) \<times> world" where
  "deliver e streams w4 =
     and_then (report_streams e (fst streams) (snd streams) w4)
       (\<lambda>_ w5. and_then (verify_output e w5) (\<lambda>_. respond e))"

text \<open>The body of the \<open>try\<close> statement, lines 83 to 138: it ends with the response, or
  with the exception that leaves the body.\<close>

definition try_body :: "env \<Rightarrow> world \<Rightarrow> (exn + response) \<times> world" where
  "try_body e w0 =
     (let (piper_exists, w1) = os_path_exists (PIPER_PATH e) w0 in
      if \<not> piper_exists
      then (Inl (HTTPException 500 (''Piper executable not found at '' @ PIPER_PATH e)), w1)
      else
      let (model_exists, w2) = os_path_exists (MODEL_PATH e) w1 in
      if \<not> model_exists
      then (Inl (HTTPException 500 (''Model file not found at '' @ MODEL_PATH e)), w2)
      else
        and_then (if \<not> IS_WINDOWS e then make_executable e w2 else (Inr (), w2))
          (\<lambda>_ w3. and_then (subprocess_run e w3) (deliver e)))"

text \<open>The \<open>except\<close> clauses, in the order of the source: the first clause that matches
  the exception decides. The result is the exception that leaves the \<open>try\<close> statement: the
  \<open>HTTPException\<close> that the clause raises or, in the second clause, the exception that
  decoding the error stream raises.\<close>

fun except_clauses :: "env \<Rightarrow> exn \<Rightarrow> exn" where
  "except_clauses e (TimeoutExpired cmd) = HTTPException 500 ''Speech synthesis timed out''"
| "except_clauses e (CalledProcessError rc cmd out err) =
     (if err \<noteq> []
      then (case decode err of
              Inl ex \<Rightarrow> ex
            | Inr text \<Rightarrow> HTTPException 500 (''Piper execution failed: '' @ text))
      else HTTPException 500
             (''Piper execution failed: '' @ str_exc e (CalledProcessError rc cmd out err)))"
| "except_clauses e ex = HTTPException 500 (''Error: '' @ str_exc e ex)"

text \<open>The whole handler. \<open>Inl\<close> is the exception that leaves the handler: the framework
  turns an \<open>HTTPException\<close> into the error response with that status code and detail, and
  any other exception into a response with status 500 and no detail. An exception of the
  staging leaves the handler at once: the \<open>try\<close> statement starts after it.\<close>

definition synthesize :: "env \<Rightarrow> pystr \<Rightarrow> world \<Rightarrow> (exn + response) \<times> world" where
  "synthesize e t w0 =
     (if strip e t = [] then (Inl (HTTPException 400 ''Text cannot be empty''), w0)
      else if length t > 1000
      then (Inl (HTTPException 400 ''Text too long (max 1000 characters)''), w0)
      else
        (case stage_input e t w0 of
           (Inl ex, w1) \<Rightarrow> (Inl ex, w1)
         | (Inr _, w1) \<Rightarrow>
             (let (r, w2) = try_body e w1;
                  r' = (case r of Inl ex \<Rightarrow> Inl (except_clauses e ex) | Inr resp \<Rightarrow> Inr resp)
              in (r', unlink_quietly (unlink_refused_final e) (temp_file_path e) w2))))"

subsection \<open>Observations on a run\<close>

text \<open>A request starts on the host's files with an empty list of operations.\<close>

definition initial :: "filesystem \<Rightarrow> world" where
  "initial fs = \<lparr>files = fs, trace = []\<rparr>"

text \<open>How many times the file at \<open>p\<close> was really removed.\<close>

definition deletions :: "path \<Rightarrow> event list \<Rightarrow> nat" where
  "deletions p evs = length (filter (\<lambda>ev. ev = Unlink p True) evs)"

fun is_run :: "event \<Rightarrow> bool" where
  "is_run (Run cmd) = True"
| "is_run ev = False"

fun is_unlink :: "event \<Rightarrow> bool" where
  "is_unlink (Unlink p ok) = True"
| "is_unlink ev = False"

text \<open>The operations that change the host, as opposed to those that only read it.\<close>

fun mutates :: "event \<Rightarrow> bool" where
  "mutates (CreateTemp p) = True"
| "mutates (WriteText p t) = True"
| "mutates (Chmod p ok) = True"
| "mutates (Run cmd) = True"
| "mutates (Unlink p ok) = True"
| "mutates ev = False"

text \<open>The file whose bytes the response hands to the caller, if any.\<close>

fun served_path :: "exn + response \<Rightarrow> path option" where
  "served_path (Inr (FileResponse p media name headers)) = Some p"
| "served_path (Inl ex) = None"

text \<open>The size of the file at the output path once the engine has run there: what the
  engine wrote, or else what was there before.\<close>

definition artifact_size :: "env \<Rightarrow> filesystem \<Rightarrow> nat option" where
  "artifact_size e fs =
     (case piper_writes e of
        Some n \<Rightarrow> Some n
      | None \<Rightarrow> map_option fsize (fs (output_file e)))"

text \<open>The staging of lines 78 to 80 raises nothing: the file is created and written.\<close>

definition staged :: "env \<Rightarrow> pystr \<Rightarrow> bool" where
  "staged e t = (mkstemp_error e = None \<and> encode_error t = None \<and> write_error e = None)"

text \<open>Lines 91 to 94 raise nothing: there is no \<open>chmod\<close> on Windows, and elsewhere the
  \<open>chmod\<close> succeeds or the warning is printed.\<close>

definition made_executable :: "env \<Rightarrow> bool" where
  "made_executable e =
     (IS_WINDOWS e \<or>
      (case chmod_error e of
         None \<Rightarrow> True
       | Some msg \<Rightarrow>
           print_error e (''Warning: Could not make piper executable: '' @ msg) = None))"

text \<open>The request gets as far as \<open>subprocess.run\<close>: the text is valid, the input is
  staged, both configured paths exist, and nothing raises before the call.\<close>

definition reaches_engine :: "env \<Rightarrow> pystr \<Rightarrow> filesystem \<Rightarrow> bool" where
  "reaches_engine e t fs =
     (strip e t \<noteq> [] \<and> length t \<le> 1000 \<and> staged e t \<and>
      PIPER_PATH e \<in> dom fs \<and> MODEL_PATH e \<in> dom fs \<and>
      made_executable e \<and> open_error e = None)"

text \<open>Lines 107 and 108 raise nothing: both streams are UTF-8 and both lines are
  printed.\<close>

definition streams_reported :: "env \<Rightarrow> bytes \<Rightarrow> bytes \<Rightarrow> bool" where
  "streams_reported e out err =
     (valid_utf8 out \<and> print_error e (''Piper stdout: '' @ out) = None \<and>
      valid_utf8 err \<and> print_error e (''Piper stderr: '' @ err) = None)"

text \<open>Line 115 raises nothing: the size is printed.\<close>

definition size_printed :: "env \<Rightarrow> nat \<Rightarrow> bool" where
  "size_printed e n =
     (print_error e (''Generated audio file size: '' @ digits n @ '' bytes'') = None)"

subsection \<open>A concrete host\<close>

text \<open>\<open>str.isspace\<close> of CPython on a code point.\<close>

definition py_isspace :: "nat \<Rightarrow> bool" where
  "py_isspace c =
     ((9 \<le> c \<and> c \<le> 13) \<or> (28 \<le> c \<and> c \<le> 32) \<or> c = 133 \<or> c = 160 \<or> c = 5760 \<or>
      (8192 \<le> c \<and> c \<le> 8202) \<or> c = 8232 \<or> c = 8233 \<or> c = 8239 \<or> c = 8287 \<or>
      c = 12288)"

text \<open>\<open>str\<close> of the exceptions, as CPython and Starlette render them. A command is shown
  as Python shows a list of strings that need no escapes. A process that a signal ended
  is shown with the name of the signal, which \<open>signal.Signals\<close> of the host knows or not:
  the names are an argument.\<close>

definition quoted :: "string \<Rightarrow> string" where
  "quoted s = [CHR 0x27] @ s @ [CHR 0x27]"

fun comma_separated :: "string list \<Rightarrow> string" where
  "comma_separated [] = []"
| "comma_separated [s] = s"
| "comma_separated (s # ss) = s @ '', '' @ comma_separated ss"

definition py_str_list :: "string list \<Rightarrow> string" where
  "py_str_list ss = ''['' @ comma_separated (map quoted ss) @ '']''"

definition hex_digit :: "nat \<Rightarrow> char" where
  "hex_digit d = ''0123456789abcdef'' ! d"

definition hex2 :: "nat \<Rightarrow> string" where
  "hex2 n = [hex_digit (n div 16 mod 16), hex_digit (n mod 16)]"

definition hex4 :: "nat \<Rightarrow> string" where
  "hex4 n = hex2 (n div 256) @ hex2 n"

fun py_str :: "(nat \<Rightarrow> string option) \<Rightarrow> exn \<Rightarrow> string" where
  "py_str names (HTTPException code detail) = digits code @ '': '' @ detail"
| "py_str names (TimeoutExpired cmd) =
     ''Command '' @ quoted (py_str_list cmd) @ '' timed out after 30 seconds''"
| "py_str names (CalledProcessError rc cmd out err) =
     (if rc < 0
      then (case names (nat (- rc)) of
              Some name \<Rightarrow>
                ''Command '' @ quoted (py_str_list cmd) @ '' died with <Signals.'' @ name @
                  '': '' @ digits (nat (- rc)) @ ''>.''
            | None \<Rightarrow>
                ''Command '' @ quoted (py_str_list cmd) @ '' died with unknown signal '' @
                  digits (nat (- rc)) @ ''.'')
      else ''Command '' @ quoted (py_str_list cmd) @ '' returned non-zero exit status '' @
             digits (nat rc) @ ''.'')"
| "py_str names (UnicodeDecodeError bs start stop reason) =
     (if stop = start + 1
      then quoted ''utf-8'' @ '' codec can't decode byte 0x'' @ hex2 (of_char (bs ! start)) @
             '' in position '' @ digits start @ '': '' @ reason
      else quoted ''utf-8'' @ '' codec can't decode bytes in position '' @ digits start @
             ''-'' @ digits (stop - 1) @ '': '' @ reason)"
| "py_str names (UnicodeEncodeError t start stop) =
     (if stop = start + 1
      then quoted ''utf-8'' @ '' codec can't encode character '' @
             quoted ([CHR 0x5C] @ ''u'' @ hex4 (t ! start)) @
             '' in position '' @ digits start @ '': surrogates not allowed''
      else quoted ''utf-8'' @ '' codec can't encode characters in position '' @ digits start @
             ''-'' @ digits (stop - 1) @ '': surrogates not allowed'')"
| "py_str names (OtherError msg) = msg"

text \<open>The signals that \<open>signal.Signals\<close> names on Linux, in Python 3.11 and later.\<close>

definition linux_signals :: "nat \<Rightarrow> string option" where
  "linux_signals =
     map_of
       [(1, ''SIGHUP''), (2, ''SIGINT''), (3, ''SIGQUIT''), (4, ''SIGILL''), (5, ''SIGTRAP''),
        (6, ''SIGABRT''), (7, ''SIGBUS''), (8, ''SIGFPE''), (9, ''SIGKILL''), (10, ''SIGUSR1''),
        (11, ''SIGSEGV''), (12, ''SIGUSR2''), (13, ''SIGPIPE''), (14, ''SIGALRM''),
        (15, ''SIGTERM''), (16, ''SIGSTKFLT''), (17, ''SIGCHLD''), (18, ''SIGCONT''),
        (19, ''SIGSTOP''), (20, ''SIGTSTP''), (21, ''SIGTTIN''), (22, ''SIGTTOU''),
        (23, ''SIGURG''), (24, ''SIGXCPU''), (25, ''SIGXFSZ''), (26, ''SIGVTALRM''),
        (27, ''SIGPROF''), (28, ''SIGWINCH''), (29, ''SIGIO''), (30, ''SIGPWR''),
        (31, ''SIGSYS''), (34, ''SIGRTMIN''), (64, ''SIGRTMAX'')]"

text \<open>A Linux host on which no call is refused, where the engine ends well and writes
  44100 bytes.\<close>

definition linux_host :: env where
  "linux_host =
     \<lparr>platform_system = ''Linux'', isspace = py_isspace, str_exc = py_str linux_signals,
      uuid4_str = ''1b4e28ba-2fa1-41d2-883f-0016d3cca427'',
      uuid4_hex = ''9f0c1d2e3a4b4c5d8e6f708192a3b4c5'',
      temp_name = ''/tmp/tmpq3x8k2vd'',
      mkstemp_error = None, write_error = None, chmod_error = None, open_error = None,
      print_error = (\<lambda>s. None),
      piper_outcome = Exited 0 [] [], piper_writes = Some 44100,
      unlink_refused_early = False, unlink_refused_final = False,
      getcwd = ''/app'', getcwd_error = None,
      listdir_dot = [''piper'', ''exported_model.onnx'', ''server.py''],
      listdir_error = None\<rparr>"

definition app_files :: filesystem where
  "app_files =
     [''.'' \<mapsto> \<lparr>fsize = 4096, fexec = True\<rparr>,
      ''./piper'' \<mapsto> \<lparr>fsize = 2000000, fexec = True\<rparr>,
      ''./exported_model.onnx'' \<mapsto> \<lparr>fsize = 60000000, fexec = False\<rparr>]"

text \<open>The text \<open>Hello world\<close>, as code points.\<close>

definition hello_world :: pystr where
  "hello_world = [72, 101, 108, 108, 111, 32, 119, 111, 114, 108, 100]"

subsection \<open>Notions used in the proofs\<close>

text \<open>The world in which the engine is started, once both paths were found: lines 83 to
  94 are done.\<close>

definition engine_start :: "env \<Rightarrow> world \<Rightarrow> world" where
  "engine_start e w =
     (let w2 = log (Exists (MODEL_PATH e)) (log (Exists (PIPER_PATH e)) w)
      in if \<not> IS_WINDOWS e then snd (make_executable e w2) else w2)"

text \<open>From \<open>w\<close> to \<open>w'\<close> no file was removed and no removal was attempted.\<close>

definition quiet :: "world \<Rightarrow> world \<Rightarrow> bool" where
  "quiet w w' \<longleftrightarrow>
     (\<exists>evs. trace w' = trace w @ evs \<and> list_all (\<lambda>ev. \<not> is_unlink ev) evs) \<and>
     dom (files w) \<subseteq> dom (files w')"

text \<open>Every way through the \<open>try\<close> body: nothing is removed up to a world \<open>w'\<close>, where the
  body either raises, or removes the staged input and returns the output file, which
  exists.\<close>

definition body_ends :: "env \<Rightarrow> world \<Rightarrow> (exn + response) \<times> world \<Rightarrow> bool" where
  "body_ends e w' res \<longleftrightarrow>
     (\<exists>ex. res = (Inl ex, w')) \<or>
     (output_file e \<in> dom (files w') \<and>
      res = (Inr (FileResponse (output_file e) ''audio/wav''
                    (''speech_'' @ take 8 (uuid4_hex e) @ ''.wav'')
                    [(''Content-Disposition'', ''attachment''),
                     (''Cache-Control'', ''no-cache'')]),
             unlink_quietly (unlink_refused_early e) (temp_file_path e) w'))"

text \<open>The exceptions that only the last \<open>except\<close> clause catches.\<close>

fun unexpected :: "exn \<Rightarrow> bool" where
  "unexpected (TimeoutExpired cmd) = False"
| "unexpected (CalledProcessError rc cmd out err) = False"
| "unexpected ex = True"

section \<open>Lemmas\<close>

subsection \<open>The host operations, one observation at a time\<close>

lemma files_log [simp]: "files (log ev w) = files w"
  by (simp add: log_def)

lemma trace_log [simp]: "trace (log ev w) = trace w @ [ev]"
  by (simp add: log_def)

lemma and_then_raise [simp]: "and_then (Inl ex, w) k = (Inl ex, w)"
  by (simp add: and_then_def)

lemma and_then_go [simp]: "and_then (Inr x, w) k = k x w"
  by (simp add: and_then_def)

lemma and_then_fst_raise: "fst r = Inl ex \<Longrightarrow> and_then r k = (Inl ex, snd r)"
  by (cases r) simp

lemma and_then_fst_go: "fst r = Inr x \<Longrightarrow> and_then r k = k x (snd r)"
  by (cases r) simp

lemma snd_print [simp]: "snd (print e s w) = log (Print s) w"
  by (simp add: print_def)

lemma print_ok: "print_error e s = None \<Longrightarrow> print e s w = (Inr (), log (Print s) w)"
  by (simp add: print_def)

lemma print_raises:
  "print_error e s = Some msg \<Longrightarrow> print e s w = (Inl (OtherError msg), log (Print s) w)"
  by (simp add: print_def)

lemma strip_empty_iff: "strip e t = [] \<longleftrightarrow> (\<forall>c \<in> set t. isspace e c)"
proof
  assume "strip e t = []"
  then have all: "\<forall>x \<in> set (dropWhile (isspace e) t). isspace e x"
    by (simp add: strip_def)
  have "dropWhile (isspace e) t = []"
  proof (rule ccontr)
    assume ne: "dropWhile (isspace e) t \<noteq> []"
    then have "\<not> isspace e (hd (dropWhile (isspace e) t))" by (rule hd_dropWhile)
    moreover have "hd (dropWhile (isspace e) t) \<in> set (dropWhile (isspace e) t)"
      using ne by simp
    ultimately show False using all by blast
  qed
  then show "\<forall>c \<in> set t. isspace e c" by simp
next
  assume "\<forall>c \<in> set t. isspace e c"
  then have d: "dropWhile (isspace e) t = []" by simp
  show "strip e t = []" unfolding strip_def d by simp
qed

text \<open>The staged input ends in \<open>.txt\<close>, so it is none of the other paths of a request.\<close>

lemma temp_neq_output: "temp_file_path e \<noteq> output_file e"
proof
  assume "temp_file_path e = output_file e"
  then have "last (temp_file_path e) = last (output_file e)" by simp
  then show False by (simp add: temp_file_path_def output_file_def)
qed

lemma temp_neq_piper: "temp_file_path e \<noteq> PIPER_PATH e"
proof
  assume "temp_file_path e = PIPER_PATH e"
  then have "last (temp_file_path e) = last (PIPER_PATH e)" by simp
  then show False by (simp add: temp_file_path_def PIPER_PATH_def split: if_splits)
qed

lemma temp_neq_model: "temp_file_path e \<noteq> MODEL_PATH e"
proof
  assume "temp_file_path e = MODEL_PATH e"
  then have "last (temp_file_path e) = last (MODEL_PATH e)" by simp
  then show False by (simp add: temp_file_path_def MODEL_PATH_def split: if_splits)
qed

lemma piper_neq_temp [simp]: "PIPER_PATH e \<noteq> temp_file_path e"
  using temp_neq_piper [of e] by simp

lemma model_neq_temp [simp]: "MODEL_PATH e \<noteq> temp_file_path e"
  using temp_neq_model [of e] by simp

lemma output_neq_temp [simp]: "output_file e \<noteq> temp_file_path e"
  using temp_neq_output [of e] by simp

text \<open>Bytes that are UTF-8 decode to the text that consists of them; other bytes raise.\<close>

lemma decode_valid: "valid_utf8 bs \<Longrightarrow> decode bs = Inr bs"
  by (simp add: decode_def valid_utf8_def)

lemma decode_Inr: "decode bs = Inr text \<Longrightarrow> valid_utf8 bs \<and> text = bs"
  by (auto simp: decode_def valid_utf8_def split: option.splits)

lemma decode_invalid:
  "\<not> valid_utf8 bs \<Longrightarrow> \<exists>start stop reason. decode bs = Inl (UnicodeDecodeError bs start stop reason)"
  by (auto simp: decode_def valid_utf8_def split: option.splits)

lemma valid_utf8_Nil [simp]: "valid_utf8 []"
  by (simp add: valid_utf8_def)

subsection \<open>The steps of \<open>synthesize\<close>\<close>

text \<open>The staging, when it raises nothing and when the write raises.\<close>

lemma stage_input_ok:
  assumes "staged e t"
  shows "stage_input e t w =
           (Inr (),
            \<lparr>files = (files w)(temp_file_path e \<mapsto> \<lparr>fsize = utf8_size t, fexec = False\<rparr>),
             trace = trace w @ [CreateTemp (temp_file_path e), WriteText (temp_file_path e) t]\<rparr>)"
  using assms by (simp add: stage_input_def staged_def Let_def log_def)

lemma stage_input_raises:
  assumes "\<not> staged e t"
  shows "\<exists>ex. fst (stage_input e t w) = Inl ex"
  using assms by (auto simp: stage_input_def staged_def Let_def split: option.splits)

lemma dom_make_executable [simp]: "dom (files (snd (make_executable e w))) = dom (files w)"
  by (auto simp: make_executable_def os_chmod_def split: option.splits)

lemma fsize_make_executable [simp]:
  "map_option fsize (files (snd (make_executable e w)) p) = map_option fsize (files w p)"
  by (auto simp: make_executable_def os_chmod_def split: option.splits)

lemma fst_make_executable:
  assumes "PIPER_PATH e \<in> dom (files w)" and "\<not> IS_WINDOWS e"
  shows "fst (make_executable e w) = Inr () \<longleftrightarrow> made_executable e"
  using assms
  by (auto simp: make_executable_def os_chmod_def made_executable_def print_def
      split: option.splits)

lemma no_run_make_executable:
  "list_ex is_run (trace (snd (make_executable e w))) = list_ex is_run (trace w)"
  by (auto simp: make_executable_def os_chmod_def split: option.splits)

lemma fst_subprocess_run:
  "fst (subprocess_run e w) =
     (case open_error e of
        Some msg \<Rightarrow> Inl (OtherError msg)
      | None \<Rightarrow>
          (case piper_outcome e of
             TimedOut \<Rightarrow> Inl (TimeoutExpired (piper_command e))
           | LaunchFault msg \<Rightarrow> Inl (OtherError msg)
           | Exited rc out err \<Rightarrow>
               if rc \<noteq> 0 then Inl (CalledProcessError rc (piper_command e) out err)
               else Inr (out, err)))"
  by (simp add: subprocess_run_def Let_def split: option.splits proc_outcome.splits)

lemma trace_subprocess_run [simp]:
  "trace (snd (subprocess_run e w)) =
     trace w @ (if open_error e = None
                then [OpenRead (temp_file_path e), Run (piper_command e)]
                else [OpenRead (temp_file_path e)])"
  by (simp add: subprocess_run_def Let_def split: proc_outcome.splits option.splits)

lemma dom_subprocess_run_mono:
  "p \<in> dom (files w) \<Longrightarrow> p \<in> dom (files (snd (subprocess_run e w)))"
  by (auto simp: subprocess_run_def Let_def split: proc_outcome.splits option.splits)

lemma files_subprocess_run_exited:
  "open_error e = None \<Longrightarrow> piper_outcome e = Exited rc out err \<Longrightarrow>
     files (snd (subprocess_run e w)) =
       (case piper_writes e of
          None \<Rightarrow> files w
        | Some n \<Rightarrow> (files w)(output_file e \<mapsto> \<lparr>fsize = n, fexec = False\<rparr>))"
  by (simp add: subprocess_run_def Let_def split: option.splits)

lemma print_stream_ok:
  assumes "valid_utf8 bs" and "print_error e (label @ bs) = None"
  shows "print_stream e label bs w = (Inr (), log (Print (label @ bs)) w)"
  using assms by (simp add: print_stream_def decode_valid print_ok)

lemma print_stream_undecodable:
  assumes "decode bs = Inl ex"
  shows "print_stream e label bs w = (Inl ex, w)"
  using assms by (simp add: print_stream_def)

lemma report_streams_ok:
  assumes "streams_reported e out err"
  shows "report_streams e out err w =
           (Inr (), log (Print (''Piper stderr: '' @ err)) (log (Print (''Piper stdout: '' @ out)) w))"
  using assms by (simp add: report_streams_def streams_reported_def print_stream_ok)

lemma files_print_stream [simp]: "files (snd (print_stream e label bs w)) = files w"
  by (simp add: print_stream_def split: sum.splits)

lemma files_report_streams [simp]: "files (snd (report_streams e out err w)) = files w"
proof (cases "print_stream e ''Piper stdout: '' out w")
  case (Pair r w1)
  then have "files w1 = files w" using files_print_stream [of e "''Piper stdout: ''" out w] by simp
  with Pair show ?thesis by (cases r) (simp_all add: report_streams_def)
qed

lemma verify_missing:
  assumes "output_file e \<notin> dom (files w)"
  shows "verify_output e w =
           (Inl (HTTPException 500 ''Audio file was not generated''),
            log (Exists (output_file e)) w)"
  using assms by (simp add: verify_output_def os_path_exists_def)

lemma verify_present:
  assumes "files w (output_file e) = Some f"
  shows "verify_output e w =
           and_then
             (print e (''Generated audio file size: '' @ digits (fsize f) @ '' bytes'')
                (log (Getsize (output_file e)) (log (Exists (output_file e)) w)))
             (\<lambda>_ w3.
                if fsize f < 1000
                then (Inl (HTTPException 500
                             ''Generated audio file appears to be empty or corrupted''), w3)
                else (Inr (), w3))"
  using assms by (simp add: verify_output_def os_path_exists_def Let_def domIff)

lemma verify_small:
  assumes "files w (output_file e) = Some f" and "fsize f < 1000"
    and "size_printed e (fsize f)"
  shows "fst (verify_output e w) =
           Inl (HTTPException 500 ''Generated audio file appears to be empty or corrupted'')"
  using assms by (simp add: verify_present size_printed_def print_ok)

lemma verify_ok:
  assumes "files w (output_file e) = Some f" and "\<not> fsize f < 1000"
    and "size_printed e (fsize f)"
  shows "verify_output e w =
           (Inr (),
            log (Print (''Generated audio file size: '' @ digits (fsize f) @ '' bytes''))
              (log (Getsize (output_file e)) (log (Exists (output_file e)) w)))"
  using assms by (simp add: verify_present size_printed_def print_ok)

lemma verify_passes:
  assumes "fst (verify_output e w) = Inr x"
  shows "output_file e \<in> dom (files (snd (verify_output e w)))"
proof (cases "files w (output_file e)")
  case None
  then have "output_file e \<notin> dom (files w)" by (simp add: domIff)
  with assms show ?thesis by (simp add: verify_missing)
next
  case (Some f)
  then show ?thesis
    by (simp add: verify_present and_then_def domIff split: prod.splits sum.splits)
      (metis files_log snd_conv snd_print option.distinct(1))
qed

lemma verify_absent_or_small:
  assumes "map_option fsize (files w (output_file e)) = None \<or>
           (\<exists>n. map_option fsize (files w (output_file e)) = Some n \<and> n < 1000)"
  shows "\<exists>ex. fst (verify_output e w) = Inl ex"
proof (cases "files w (output_file e)")
  case None
  then have "output_file e \<notin> dom (files w)" by (simp add: domIff)
  then show ?thesis by (simp add: verify_missing)
next
  case (Some f)
  with assms have "fsize f < 1000" by auto
  with Some show ?thesis
    by (cases "print e (''Generated audio file size: '' @ digits (fsize f) @ '' bytes'')
                 (log (Getsize (output_file e)) (log (Exists (output_file e)) w))")
      (auto simp: verify_present and_then_def split: sum.splits)
qed

subsection \<open>Steps that remove nothing\<close>

lemma quiet_refl: "quiet w w"
  by (simp add: quiet_def)

lemma quiet_trans: "quiet w w' \<Longrightarrow> quiet w' w'' \<Longrightarrow> quiet w w''"
  by (auto simp: quiet_def)

lemma quiet_log: "\<not> is_unlink ev \<Longrightarrow> quiet w (log ev w)"
  by (simp add: quiet_def)

lemma quiet_print: "quiet w (snd (print e s w))"
  by (simp add: quiet_def)

lemma quiet_stage_input: "quiet w (snd (stage_input e t w))"
  by (auto simp: quiet_def stage_input_def Let_def split: option.splits)

lemma quiet_make_executable: "quiet w (snd (make_executable e w))"
  by (auto simp: quiet_def make_executable_def os_chmod_def split: option.splits)

lemma quiet_subprocess_run: "quiet w (snd (subprocess_run e w))"
proof -
  have "dom (files w) \<subseteq> dom (files (snd (subprocess_run e w)))"
    using dom_subprocess_run_mono by blast
  then show ?thesis by (simp add: quiet_def)
qed

lemma quiet_engine_start: "quiet w (engine_start e w)"
proof -
  have "quiet w (log (Exists (MODEL_PATH e)) (log (Exists (PIPER_PATH e)) w))"
    by (simp add: quiet_def)
  then show ?thesis
    by (auto simp: engine_start_def Let_def intro: quiet_trans quiet_make_executable)
qed

lemma quiet_and_then:
  assumes "quiet w (snd r)"
    and "\<And>x. fst r = Inr x \<Longrightarrow> quiet (snd r) (snd (k x (snd r)))"
  shows "quiet w (snd (and_then r k))"
proof (cases r)
  case (Pair res w1)
  show ?thesis
  proof (cases res)
    case (Inl ex)
    with Pair assms(1) show ?thesis by simp
  next
    case (Inr x)
    with Pair assms(2) [of x] have "quiet w1 (snd (k x w1))" by simp
    with Pair Inr assms(1) show ?thesis by (auto intro: quiet_trans)
  qed
qed

lemma quiet_print_stream: "quiet w (snd (print_stream e label bs w))"
  by (simp add: print_stream_def quiet_def split: sum.splits)

lemma quiet_report_streams: "quiet w (snd (report_streams e out err w))"
  unfolding report_streams_def
  by (rule quiet_and_then) (rule quiet_print_stream)+

lemma quiet_verify_output: "quiet w (snd (verify_output e w))"
proof (cases "files w (output_file e)")
  case None
  then have "output_file e \<notin> dom (files w)" by (simp add: domIff)
  then show ?thesis by (simp add: verify_missing quiet_def)
next
  case (Some f)
  let ?w2 = "log (Getsize (output_file e)) (log (Exists (output_file e)) w)"
  let ?p = "print e (''Generated audio file size: '' @ digits (fsize f) @ '' bytes'') ?w2"
  have "quiet w (snd ?p)" by (simp add: quiet_def)
  then have "quiet w (snd (and_then ?p
      (\<lambda>_ w3. if fsize f < 1000
               then (Inl (HTTPException 500
                            ''Generated audio file appears to be empty or corrupted''), w3)
               else (Inr (), w3))))"
    by (rule quiet_and_then) (simp add: quiet_refl)
  with Some show ?thesis by (simp add: verify_present)
qed

lemma quietD_dom: "quiet w w' \<Longrightarrow> p \<in> dom (files w) \<Longrightarrow> p \<in> dom (files w')"
  by (auto simp: quiet_def)

lemma quietD_trace: "quiet w w' \<Longrightarrow> ev \<in> set (trace w) \<Longrightarrow> ev \<in> set (trace w')"
  by (auto simp: quiet_def)

lemma quietD_unlink:
  assumes "quiet w w'" and "Unlink p ok \<in> set (trace w')"
  shows "Unlink p ok \<in> set (trace w)"
proof -
  obtain evs where tr: "trace w' = trace w @ evs" and no: "\<forall>ev \<in> set evs. \<not> is_unlink ev"
    using assms(1) by (auto simp: quiet_def list_all_iff)
  have "Unlink p ok \<notin> set evs"
  proof
    assume "Unlink p ok \<in> set evs"
    with no have "\<not> is_unlink (Unlink p ok)" by blast
    then show False by simp
  qed
  with assms(2) tr show ?thesis by simp
qed

lemma quietD_deletions:
  assumes "quiet w w'"
  shows "deletions p (trace w') = deletions p (trace w)"
proof -
  obtain evs where tr: "trace w' = trace w @ evs" and no: "\<forall>ev \<in> set evs. \<not> is_unlink ev"
    using assms by (auto simp: quiet_def list_all_iff)
  have "filter (\<lambda>ev. ev = Unlink p True) evs = []"
  proof (rule ccontr)
    assume "filter (\<lambda>ev. ev = Unlink p True) evs \<noteq> []"
    then have "Unlink p True \<in> set evs" by (auto simp: filter_empty_conv)
    with no have "\<not> is_unlink (Unlink p True)" by blast
    then show False by simp
  qed
  with tr show ?thesis by (simp add: deletions_def)
qed

subsection \<open>Every way through the \<open>try\<close> body\<close>

lemma paths_and_then:
  assumes "quiet w (snd r)"
    and "\<And>x. fst r = Inr x \<Longrightarrow> \<exists>w'. quiet (snd r) w' \<and> body_ends e w' (k x (snd r))"
  shows "\<exists>w'. quiet w w' \<and> body_ends e w' (and_then r k)"
proof (cases r)
  case (Pair res w1)
  show ?thesis
  proof (cases res)
    case (Inl ex)
    with Pair assms(1) show ?thesis by (auto simp: body_ends_def)
  next
    case (Inr x)
    with Pair assms(2) [of x] obtain w' where "quiet w1 w'" and "body_ends e w' (k x w1)"
      by auto
    with Pair Inr assms(1) show ?thesis by (auto intro: quiet_trans)
  qed
qed

lemma respond_paths:
  assumes "output_file e \<in> dom (files w)"
  shows "\<exists>w'. quiet w w' \<and> body_ends e w' (respond e w)"
proof -
  have "quiet w (log Sleep w)" by (simp add: quiet_def)
  moreover have "body_ends e (log Sleep w) (respond e w)"
    using assms by (simp add: body_ends_def respond_def Let_def)
  ultimately show ?thesis by blast
qed

lemma deliver_paths: "\<exists>w'. quiet w w' \<and> body_ends e w' (deliver e streams w)"
  unfolding deliver_def
proof (rule paths_and_then)
  show "quiet w (snd (report_streams e (fst streams) (snd streams) w))"
    by (rule quiet_report_streams)
next
  fix x
  let ?w5 = "snd (report_streams e (fst streams) (snd streams) w)"
  show "\<exists>w'. quiet ?w5 w' \<and> body_ends e w' (and_then (verify_output e ?w5) (\<lambda>_. respond e))"
  proof (rule paths_and_then)
    show "quiet ?w5 (snd (verify_output e ?w5))" by (rule quiet_verify_output)
  next
    fix y assume "fst (verify_output e ?w5) = Inr y"
    then have "output_file e \<in> dom (files (snd (verify_output e ?w5)))"
      by (rule verify_passes)
    then show "\<exists>w'. quiet (snd (verify_output e ?w5)) w' \<and>
                    body_ends e w' (respond e (snd (verify_output e ?w5)))"
      by (rule respond_paths)
  qed
qed

text \<open>The \<open>try\<close> body once both paths were found.\<close>

lemma try_no_piper:
  assumes "PIPER_PATH e \<notin> dom (files w)"
  shows "try_body e w =
           (Inl (HTTPException 500 (''Piper executable not found at '' @ PIPER_PATH e)),
            log (Exists (PIPER_PATH e)) w)"
  using assms by (simp add: try_body_def os_path_exists_def)

lemma try_no_model:
  assumes "PIPER_PATH e \<in> dom (files w)" and "MODEL_PATH e \<notin> dom (files w)"
  shows "try_body e w =
           (Inl (HTTPException 500 (''Model file not found at '' @ MODEL_PATH e)),
            log (Exists (MODEL_PATH e)) (log (Exists (PIPER_PATH e)) w))"
  using assms by (simp add: try_body_def os_path_exists_def)

lemma try_found:
  assumes "PIPER_PATH e \<in> dom (files w)" and "MODEL_PATH e \<in> dom (files w)"
  shows "try_body e w =
           and_then
             (if \<not> IS_WINDOWS e
              then make_executable e
                     (log (Exists (MODEL_PATH e)) (log (Exists (PIPER_PATH e)) w))
              else (Inr (), log (Exists (MODEL_PATH e)) (log (Exists (PIPER_PATH e)) w)))
             (\<lambda>_ w3. and_then (subprocess_run e w3) (deliver e))"
  using assms by (simp add: try_body_def os_path_exists_def)

lemma try_warning_raises:
  assumes "PIPER_PATH e \<in> dom (files w)" and "MODEL_PATH e \<in> dom (files w)"
    and "\<not> made_executable e"
  shows "\<exists>ex. try_body e w = (Inl ex, engine_start e w)"
proof -
  let ?w2 = "log (Exists (MODEL_PATH e)) (log (Exists (PIPER_PATH e)) w)"
  from assms(3) have win: "\<not> IS_WINDOWS e" by (auto simp: made_executable_def)
  have "PIPER_PATH e \<in> dom (files ?w2)" using assms(1) by simp
  with win assms(3) have "fst (make_executable e ?w2) \<noteq> Inr ()"
    by (simp add: fst_make_executable)
  then obtain ex where "fst (make_executable e ?w2) = Inl ex"
    by (cases "fst (make_executable e ?w2)") auto
  then have "and_then (make_executable e ?w2) (\<lambda>_ w3. and_then (subprocess_run e w3) (deliver e))
      = (Inl ex, snd (make_executable e ?w2))"
    by (rule and_then_fst_raise)
  with win assms(1,2) show ?thesis by (simp add: try_found engine_start_def Let_def)
qed

lemma try_run:
  assumes "PIPER_PATH e \<in> dom (files w)" and "MODEL_PATH e \<in> dom (files w)"
    and "made_executable e"
  shows "try_body e w = and_then (subprocess_run e (engine_start e w)) (deliver e)"
proof (cases "IS_WINDOWS e")
  case True
  with assms(1,2) show ?thesis by (simp add: try_found engine_start_def Let_def)
next
  case False
  let ?w2 = "log (Exists (MODEL_PATH e)) (log (Exists (PIPER_PATH e)) w)"
  have "PIPER_PATH e \<in> dom (files ?w2)" using assms(1) by simp
  with False assms(3) have "fst (make_executable e ?w2) = Inr ()"
    by (simp add: fst_make_executable)
  then have "and_then (make_executable e ?w2) (\<lambda>_ w3. and_then (subprocess_run e w3) (deliver e))
      = and_then (subprocess_run e (snd (make_executable e ?w2))) (deliver e)"
    by (rule and_then_fst_go)
  with False assms(1,2) show ?thesis by (simp add: try_found engine_start_def Let_def)
qed

lemma try_body_paths: "\<exists>w'. quiet w w' \<and> body_ends e w' (try_body e w)"
proof (cases "PIPER_PATH e \<in> dom (files w)")
  case False
  then show ?thesis by (auto simp: try_no_piper body_ends_def quiet_def)
next
  case piper: True
  show ?thesis
  proof (cases "MODEL_PATH e \<in> dom (files w)")
    case False
    with piper show ?thesis by (auto simp: try_no_model body_ends_def quiet_def)
  next
    case model: True
    show ?thesis
    proof (cases "made_executable e")
      case False
      with piper model obtain ex where "try_body e w = (Inl ex, engine_start e w)"
        using try_warning_raises by blast
      then show ?thesis using quiet_engine_start [of w e] by (auto simp: body_ends_def)
    next
      case True
      let ?r = "subprocess_run e (engine_start e w)"
      have "quiet w (snd ?r)"
        using quiet_engine_start quiet_subprocess_run by (rule quiet_trans)
      then have "\<exists>w'. quiet w w' \<and> body_ends e w' (and_then ?r (deliver e))"
        by (rule paths_and_then) (rule deliver_paths)
      with piper model True show ?thesis by (simp add: try_run)
    qed
  qed
qed

subsection \<open>The handler around the \<open>try\<close> body\<close>

lemma trace_unlink_quietly [simp]:
  "trace (unlink_quietly refused p w) = trace w @ [Unlink p (p \<in> dom (files w) \<and> \<not> refused)]"
  by (simp add: unlink_quietly_def)

lemma dom_unlink_quietly [simp]:
  "dom (files (unlink_quietly refused p w)) =
     (if refused then dom (files w) else dom (files w) - {p})"
  by (auto simp: unlink_quietly_def)

lemma fsize_engine_start [simp]:
  "map_option fsize (files (engine_start e w) p) = map_option fsize (files w p)"
  by (simp add: engine_start_def Let_def)

lemma dom_engine_start [simp]: "dom (files (engine_start e w)) = dom (files w)"
  by (simp add: engine_start_def Let_def)

lemma files_staged:
  assumes "staged e t"
  shows "files (snd (stage_input e t w)) =
           (files w)(temp_file_path e \<mapsto> \<lparr>fsize = utf8_size t, fexec = False\<rparr>)"
  using assms by (simp add: stage_input_ok)

lemma trace_staged:
  assumes "staged e t"
  shows "trace (snd (stage_input e t w)) =
           trace w @ [CreateTemp (temp_file_path e), WriteText (temp_file_path e) t]"
  using assms by (simp add: stage_input_ok)

lemma dom_staged:
  assumes "staged e t"
  shows "dom (files (snd (stage_input e t w))) = insert (temp_file_path e) (dom (files w))"
  using assms by (simp add: stage_input_ok)

lemma synthesize_invalid:
  assumes "strip e t = [] \<or> length t > 1000"
  shows "synthesize e t w =
           (Inl (HTTPException 400
                   (if strip e t = [] then ''Text cannot be empty''
                    else ''Text too long (max 1000 characters)'')), w)"
  using assms by (auto simp: synthesize_def)

text \<open>An exception of the staging leaves the handler as it is, and nothing is cleaned up.\<close>

lemma synthesize_unstaged:
  assumes "strip e t \<noteq> []" and "length t \<le> 1000" and "fst (stage_input e t w) = Inl ex"
  shows "synthesize e t w = (Inl ex, snd (stage_input e t w))"
proof -
  obtain w1 where "stage_input e t w = (Inl ex, w1)"
    using assms(3) by (cases "stage_input e t w") auto
  then show ?thesis using assms(1,2) by (simp add: synthesize_def)
qed

lemma write_fails:
  assumes "mkstemp_error e = None" and "encode_error t = None" and "write_error e = Some msg"
  shows "stage_input e t w =
           (Inl (OtherError msg),
            \<lparr>files = (files w)(temp_file_path e \<mapsto> \<lparr>fsize = 0, fexec = False\<rparr>),
             trace = trace w @ [CreateTemp (temp_file_path e), WriteText (temp_file_path e) t]\<rparr>)"
  using assms by (simp add: stage_input_def Let_def log_def)

lemma fst_synthesize:
  assumes "strip e t \<noteq> []" and "length t \<le> 1000" and "staged e t"
  shows "fst (synthesize e t w) =
           (case fst (try_body e (snd (stage_input e t w))) of
              Inl ex \<Rightarrow> Inl (except_clauses e ex)
            | Inr resp \<Rightarrow> Inr resp)"
proof -
  have "fst (stage_input e t w) = Inr ()" using assms(3) by (simp add: stage_input_ok)
  then obtain w1 where "stage_input e t w = (Inr (), w1)"
    by (cases "stage_input e t w") auto
  then show ?thesis using assms(1,2) by (simp add: synthesize_def Let_def case_prod_beta)
qed

lemma snd_synthesize:
  assumes "strip e t \<noteq> []" and "length t \<le> 1000" and "staged e t"
  shows "snd (synthesize e t w) =
           unlink_quietly (unlink_refused_final e) (temp_file_path e)
             (snd (try_body e (snd (stage_input e t w))))"
proof -
  have "fst (stage_input e t w) = Inr ()" using assms(3) by (simp add: stage_input_ok)
  then obtain w1 where "stage_input e t w = (Inr (), w1)"
    by (cases "stage_input e t w") auto
  then show ?thesis using assms(1,2) by (simp add: synthesize_def Let_def case_prod_beta)
qed

text \<open>A request that reaches the engine, up to the call of \<open>subprocess.run\<close>.\<close>

lemma reaches_engineD:
  assumes "reaches_engine e t fs"
  shows "strip e t \<noteq> []" and "length t \<le> 1000" and "staged e t"
    and "PIPER_PATH e \<in> dom fs" and "MODEL_PATH e \<in> dom fs"
    and "made_executable e" and "open_error e = None"
  using assms by (simp_all add: reaches_engine_def)

lemma body_run:
  assumes "reaches_engine e t fs"
  shows "try_body e (snd (stage_input e t (initial fs))) =
           and_then (subprocess_run e (engine_start e (snd (stage_input e t (initial fs)))))
             (deliver e)"
proof -
  note r = reaches_engineD [OF assms]
  have p: "PIPER_PATH e \<in> dom (files (snd (stage_input e t (initial fs))))"
    using r(3,4) by (simp add: dom_staged initial_def)
  have m: "MODEL_PATH e \<in> dom (files (snd (stage_input e t (initial fs))))"
    using r(3,5) by (simp add: dom_staged initial_def)
  show ?thesis by (rule try_run [OF p m r(6)])
qed

lemma body_engine_raises:
  assumes "reaches_engine e t fs"
    and "fst (subprocess_run e (engine_start e (snd (stage_input e t (initial fs))))) = Inl ex"
  shows "try_body e (snd (stage_input e t (initial fs))) =
           (Inl ex, snd (subprocess_run e (engine_start e (snd (stage_input e t (initial fs))))))"
  using assms by (simp add: body_run and_then_fst_raise)

lemma body_after_engine:
  assumes "reaches_engine e t fs" and "piper_outcome e = Exited 0 out err"
  shows "try_body e (snd (stage_input e t (initial fs))) =
           deliver e (out, err)
             (snd (subprocess_run e (engine_start e (snd (stage_input e t (initial fs))))))"
proof -
  have "fst (subprocess_run e (engine_start e (snd (stage_input e t (initial fs))))) =
          Inr (out, err)"
    using assms(2) reaches_engineD(7) [OF assms(1)] by (simp add: fst_subprocess_run)
  then show ?thesis using assms(1) by (simp add: body_run and_then_fst_go)
qed

text \<open>The size of the output file when the engine has ended, in a request that reached
  the engine.\<close>

lemma artifact_after_run:
  assumes "reaches_engine e t fs" and "piper_outcome e = Exited rc out err"
  shows "map_option fsize
           (files (snd (subprocess_run e (engine_start e (snd (stage_input e t (initial fs))))))
              (output_file e)) = artifact_size e fs"
proof (cases "piper_writes e")
  case None
  note r = reaches_engineD [OF assms(1)]
  have "files (snd (stage_input e t (initial fs))) (output_file e) = fs (output_file e)"
    using r(3) by (simp add: files_staged initial_def)
  then have "map_option fsize
      (files (engine_start e (snd (stage_input e t (initial fs)))) (output_file e))
      = map_option fsize (fs (output_file e))"
    by simp
  with None assms(2) r(7) show ?thesis
    by (simp add: files_subprocess_run_exited artifact_size_def)
next
  case (Some n)
  with assms(2) reaches_engineD(7) [OF assms(1)] show ?thesis
    by (simp add: files_subprocess_run_exited artifact_size_def)
qed

text \<open>What the \<open>try\<close> body raises when the output file is missing or small.\<close>

lemma deliver_reported:
  assumes "streams_reported e out err"
  shows "deliver e (out, err) w =
           and_then
             (verify_output e
                (log (Print (''Piper stderr: '' @ err)) (log (Print (''Piper stdout: '' @ out)) w)))
             (\<lambda>_. respond e)"
  using assms by (simp add: deliver_def report_streams_ok)

lemma body_missing_output:
  assumes "reaches_engine e t fs" and "piper_outcome e = Exited 0 out err"
    and "streams_reported e out err" and "artifact_size e fs = None"
  shows "fst (try_body e (snd (stage_input e t (initial fs)))) =
           Inl (HTTPException 500 ''Audio file was not generated'')"
proof -
  let ?w4 = "snd (subprocess_run e (engine_start e (snd (stage_input e t (initial fs)))))"
  let ?w5 = "log (Print (''Piper stderr: '' @ err)) (log (Print (''Piper stdout: '' @ out)) ?w4)"
  have "map_option fsize (files ?w4 (output_file e)) = None"
    using assms(1,2,4) by (simp add: artifact_after_run)
  then have "output_file e \<notin> dom (files ?w5)" by (simp add: domIff)
  then have "fst (verify_output e ?w5) = Inl (HTTPException 500 ''Audio file was not generated'')"
    by (simp add: verify_missing)
  then have "fst (and_then (verify_output e ?w5) (\<lambda>_. respond e)) =
               Inl (HTTPException 500 ''Audio file was not generated'')"
    by (simp add: and_then_fst_raise)
  then show ?thesis using assms(1-3) by (simp add: body_after_engine deliver_reported)
qed

lemma body_small_output:
  assumes "reaches_engine e t fs" and "piper_outcome e = Exited 0 out err"
    and "streams_reported e out err"
    and "artifact_size e fs = Some n" and "n < 1000" and "size_printed e n"
  shows "fst (try_body e (snd (stage_input e t (initial fs)))) =
           Inl (HTTPException 500 ''Generated audio file appears to be empty or corrupted'')"
proof -
  let ?w4 = "snd (subprocess_run e (engine_start e (snd (stage_input e t (initial fs)))))"
  let ?w5 = "log (Print (''Piper stderr: '' @ err)) (log (Print (''Piper stdout: '' @ out)) ?w4)"
  have "map_option fsize (files ?w4 (output_file e)) = Some n"
    using assms(1,2,4) by (simp add: artifact_after_run)
  then obtain f where "files ?w5 (output_file e) = Some f" and "fsize f = n" by auto
  then have "fst (verify_output e ?w5) =
      Inl (HTTPException 500 ''Generated audio file appears to be empty or corrupted'')"
    using assms(5,6) by (simp add: verify_small)
  then have "fst (and_then (verify_output e ?w5) (\<lambda>_. respond e)) =
      Inl (HTTPException 500 ''Generated audio file appears to be empty or corrupted'')"
    by (simp add: and_then_fst_raise)
  then show ?thesis using assms(1-3) by (simp add: body_after_engine deliver_reported)
qed

text \<open>Whatever is raised after the engine has ended well is caught by the last \<open>except\<close>
  clause.\<close>

lemma except_unexpected:
  "unexpected ex \<Longrightarrow> except_clauses e ex = HTTPException 500 (''Error: '' @ str_exc e ex)"
  by (cases ex) simp_all

lemma and_then_raisesE:
  assumes "fst (and_then r k) = Inl ex"
  shows "fst r = Inl ex \<or> (\<exists>x. fst r = Inr x \<and> fst (k x (snd r)) = Inl ex)"
proof (cases r)
  case (Pair res w1)
  with assms show ?thesis by (cases res) simp_all
qed

lemma print_unexpected: "fst (print e s w) = Inl ex \<Longrightarrow> unexpected ex"
  by (auto simp: print_def split: option.splits)

lemma print_stream_unexpected: "fst (print_stream e label bs w) = Inl ex \<Longrightarrow> unexpected ex"
  by (auto simp: print_stream_def decode_def print_def split: option.splits sum.splits)

lemma report_streams_unexpected:
  assumes "fst (report_streams e out err w) = Inl ex"
  shows "unexpected ex"
  using and_then_raisesE [OF assms [unfolded report_streams_def]]
  by (auto dest: print_stream_unexpected)

lemma verify_output_unexpected:
  assumes "fst (verify_output e w) = Inl ex"
  shows "unexpected ex"
proof (cases "files w (output_file e)")
  case None
  then have "output_file e \<notin> dom (files w)" by (simp add: domIff)
  with assms show ?thesis by (auto simp: verify_missing)
next
  case (Some f)
  with assms have "fst (and_then
      (print e (''Generated audio file size: '' @ digits (fsize f) @ '' bytes'')
         (log (Getsize (output_file e)) (log (Exists (output_file e)) w)))
      (\<lambda>_ w3. if fsize f < 1000
               then (Inl (HTTPException 500
                            ''Generated audio file appears to be empty or corrupted''), w3)
               else (Inr (), w3))) = Inl ex"
    by (simp add: verify_present)
  from and_then_raisesE [OF this] show ?thesis
    by (auto dest: print_unexpected split: if_splits)
qed

lemma respond_returns: "\<exists>resp. fst (respond e w) = Inr resp"
  by (simp add: respond_def Let_def)

lemma deliver_unexpected:
  assumes "fst (deliver e streams w) = Inl ex"
  shows "unexpected ex"
proof -
  let ?r = "report_streams e (fst streams) (snd streams) w"
  have "fst (and_then ?r (\<lambda>_ w5. and_then (verify_output e w5) (\<lambda>_. respond e))) = Inl ex"
    using assms by (simp add: deliver_def)
  then have "fst ?r = Inl ex \<or>
             fst (and_then (verify_output e (snd ?r)) (\<lambda>_. respond e)) = Inl ex"
    using and_then_raisesE by fastforce
  then show ?thesis
  proof
    assume "fst ?r = Inl ex"
    then show ?thesis by (rule report_streams_unexpected)
  next
    assume "fst (and_then (verify_output e (snd ?r)) (\<lambda>_. respond e)) = Inl ex"
    then have "fst (verify_output e (snd ?r)) = Inl ex \<or>
               fst (respond e (snd (verify_output e (snd ?r)))) = Inl ex"
      using and_then_raisesE by fastforce
    moreover have "fst (respond e (snd (verify_output e (snd ?r)))) \<noteq> Inl ex"
      using respond_returns [of e "snd (verify_output e (snd ?r))"] by auto
    ultimately have "fst (verify_output e (snd ?r)) = Inl ex" by simp
    then show ?thesis by (rule verify_output_unexpected)
  qed
qed

lemma body_small_raises:
  assumes "reaches_engine e t fs" and "piper_outcome e = Exited 0 out err"
    and "artifact_size e fs = None \<or> (\<exists>n. artifact_size e fs = Some n \<and> n < 1000)"
  shows "\<exists>ex. fst (try_body e (snd (stage_input e t (initial fs)))) = Inl ex \<and> unexpected ex"
proof -
  let ?w4 = "snd (subprocess_run e (engine_start e (snd (stage_input e t (initial fs)))))"
  let ?r = "report_streams e out err ?w4"
  have size: "map_option fsize (files ?w4 (output_file e)) = artifact_size e fs"
    using assms(1,2) by (rule artifact_after_run)
  have body: "try_body e (snd (stage_input e t (initial fs))) = deliver e (out, err) ?w4"
    using assms(1,2) by (rule body_after_engine)
  have "\<exists>ex. fst (deliver e (out, err) ?w4) = Inl ex"
  proof (cases "fst ?r")
    case (Inl ex)
    then show ?thesis by (simp add: deliver_def and_then_fst_raise)
  next
    case (Inr x)
    have "map_option fsize (files (snd ?r) (output_file e)) = None \<or>
          (\<exists>n. map_option fsize (files (snd ?r) (output_file e)) = Some n \<and> n < 1000)"
      using assms(3) size by simp
    then obtain ex where "fst (verify_output e (snd ?r)) = Inl ex"
      using verify_absent_or_small by blast
    then have "fst (and_then (verify_output e (snd ?r)) (\<lambda>_. respond e)) = Inl ex"
      by (simp add: and_then_fst_raise)
    with Inr show ?thesis by (simp add: deliver_def and_then_fst_go)
  qed
  then obtain ex where ex: "fst (deliver e (out, err) ?w4) = Inl ex" by blast
  then have "unexpected ex" by (rule deliver_unexpected)
  with ex body show ?thesis by simp
qed

text \<open>Starlette's \<open>str\<close> of an \<open>HTTPException\<close> ends with its detail.\<close>

lemma py_str_shows_detail: "sublist d (py_str names (HTTPException c d))"
proof -
  have "py_str names (HTTPException c d) = (digits c @ '': '') @ d" by simp
  then show ?thesis by (simp only: sublist_append_leftI)
qed

subsection \<open>When the engine is started\<close>

lemma no_run_stage_input:
  "list_ex is_run (trace (snd (stage_input e t w))) = list_ex is_run (trace w)"
  by (auto simp: stage_input_def Let_def split: option.splits)

lemma no_run_engine_start:
  "list_ex is_run (trace (engine_start e w)) = list_ex is_run (trace w)"
  by (simp add: engine_start_def Let_def no_run_make_executable)

lemma no_run_unlink_quietly [simp]:
  "list_ex is_run (trace (unlink_quietly refused p w)) = list_ex is_run (trace w)"
  by simp

text \<open>Without both configured paths, a valid request starts no process, whether its input
  was staged or not.\<close>

lemma missing_path_no_run:
  assumes "strip e t \<noteq> []" and "length t \<le> 1000"
    and "PIPER_PATH e \<notin> dom fs \<or> MODEL_PATH e \<notin> dom fs"
  shows "\<not> list_ex is_run (trace (snd (synthesize e t (initial fs))))"
proof (cases "staged e t")
  case False
  then obtain ex where "fst (stage_input e t (initial fs)) = Inl ex"
    using stage_input_raises by blast
  then have "synthesize e t (initial fs) = (Inl ex, snd (stage_input e t (initial fs)))"
    using assms(1,2) by (simp add: synthesize_unstaged)
  then show ?thesis by (simp add: no_run_stage_input initial_def)
next
  case True
  let ?w1 = "snd (stage_input e t (initial fs))"
  have start: "\<not> list_ex is_run (trace ?w1)" by (simp add: no_run_stage_input initial_def)
  have "\<not> list_ex is_run (trace (snd (try_body e ?w1)))"
  proof (cases "PIPER_PATH e \<in> dom fs")
    case False
    then have "PIPER_PATH e \<notin> dom (files ?w1)" using True by (simp add: dom_staged initial_def)
    then show ?thesis using start by (simp add: try_no_piper)
  next
    case piper: True
    with assms(3) have "MODEL_PATH e \<notin> dom fs" by simp
    then have "MODEL_PATH e \<notin> dom (files ?w1)" using True by (simp add: dom_staged initial_def)
    moreover have "PIPER_PATH e \<in> dom (files ?w1)"
      using piper True by (simp add: dom_staged initial_def)
    ultimately show ?thesis using start by (simp add: try_no_model)
  qed
  then show ?thesis using assms(1,2) True by (simp add: snd_synthesize)
qed

lemma engine_not_reached:
  assumes "\<not> reaches_engine e t fs"
  shows "\<not> list_ex is_run (trace (snd (synthesize e t (initial fs))))"
proof (cases "strip e t = [] \<or> length t > 1000")
  case True
  then show ?thesis by (simp add: synthesize_invalid initial_def)
next
  case False
  then have valid: "strip e t \<noteq> []" "length t \<le> 1000" by simp_all
  show ?thesis
  proof (cases "PIPER_PATH e \<notin> dom fs \<or> MODEL_PATH e \<notin> dom fs")
    case True
    with valid show ?thesis by (rule missing_path_no_run)
  next
    case found: False
    show ?thesis
    proof (cases "staged e t")
      case False
      then obtain ex where "fst (stage_input e t (initial fs)) = Inl ex"
        using stage_input_raises by blast
      then have "synthesize e t (initial fs) = (Inl ex, snd (stage_input e t (initial fs)))"
        using valid by (simp add: synthesize_unstaged)
      then show ?thesis by (simp add: no_run_stage_input initial_def)
    next
      case True
      let ?w1 = "snd (stage_input e t (initial fs))"
      have start: "\<not> list_ex is_run (trace ?w1)"
        by (simp add: no_run_stage_input initial_def)
      have p: "PIPER_PATH e \<in> dom (files ?w1)"
        using found True by (simp add: dom_staged initial_def)
      have m: "MODEL_PATH e \<in> dom (files ?w1)"
        using found True by (simp add: dom_staged initial_def)
      have "\<not> list_ex is_run (trace (snd (try_body e ?w1)))"
      proof (cases "made_executable e")
        case False
        with p m obtain ex where "try_body e ?w1 = (Inl ex, engine_start e ?w1)"
          using try_warning_raises by blast
        then show ?thesis using start by (simp add: no_run_engine_start)
      next
        case x: True
        with assms valid found True obtain msg where msg: "open_error e = Some msg"
          by (auto simp: reaches_engine_def)
        then have "fst (subprocess_run e (engine_start e ?w1)) = Inl (OtherError msg)"
          by (simp add: fst_subprocess_run)
        then have "and_then (subprocess_run e (engine_start e ?w1)) (deliver e) =
                     (Inl (OtherError msg), snd (subprocess_run e (engine_start e ?w1)))"
          by (rule and_then_fst_raise)
        then have "try_body e ?w1 =
                     (Inl (OtherError msg), snd (subprocess_run e (engine_start e ?w1)))"
          using p m x by (simp add: try_run)
        then show ?thesis using start msg by (simp add: no_run_engine_start)
      qed
      then show ?thesis using valid True by (simp add: snd_synthesize)
    qed
  qed
qed

lemma body_ends_trace:
  assumes "body_ends e w' res" and "ev \<in> set (trace w')"
  shows "ev \<in> set (trace (snd res))"
  using assms by (auto simp: body_ends_def)

lemma deliver_keeps_trace:
  assumes "ev \<in> set (trace (snd r))"
  shows "ev \<in> set (trace (snd (and_then r (deliver e))))"
proof (cases "fst r")
  case (Inl ex)
  then have "and_then r (deliver e) = (Inl ex, snd r)" by (rule and_then_fst_raise)
  with assms show ?thesis by simp
next
  case (Inr x)
  then have eq: "and_then r (deliver e) = deliver e x (snd r)" by (rule and_then_fst_go)
  obtain w' where q: "quiet (snd r) w'" and ends: "body_ends e w' (deliver e x (snd r))"
    using deliver_paths by blast
  from q assms have "ev \<in> set (trace w')" by (rule quietD_trace)
  with ends have "ev \<in> set (trace (snd (deliver e x (snd r))))" by (rule body_ends_trace)
  with eq show ?thesis by simp
qed

text \<open>\<open>subprocess.run\<close> is called in exactly the requests that reach the engine.\<close>

lemma engine_reached_iff:
  "Run (piper_command e) \<in> set (trace (snd (synthesize e t (initial fs)))) \<longleftrightarrow>
     reaches_engine e t fs"
proof
  assume run: "Run (piper_command e) \<in> set (trace (snd (synthesize e t (initial fs))))"
  show "reaches_engine e t fs"
  proof (rule ccontr)
    assume "\<not> reaches_engine e t fs"
    then have "\<not> list_ex is_run (trace (snd (synthesize e t (initial fs))))"
      by (rule engine_not_reached)
    then have "\<forall>ev \<in> set (trace (snd (synthesize e t (initial fs)))). \<not> is_run ev"
      by (simp add: list_ex_iff)
    with run have "\<not> is_run (Run (piper_command e))" by blast
    then show False by simp
  qed
next
  assume reach: "reaches_engine e t fs"
  note r = reaches_engineD [OF reach]
  let ?w1 = "snd (stage_input e t (initial fs))"
  let ?r = "subprocess_run e (engine_start e ?w1)"
  have "Run (piper_command e) \<in> set (trace (snd ?r))" using r(7) by simp
  then have "Run (piper_command e) \<in> set (trace (snd (and_then ?r (deliver e))))"
    by (rule deliver_keeps_trace)
  then have "Run (piper_command e) \<in> set (trace (snd (try_body e ?w1)))"
    using reach by (simp add: body_run)
  then show "Run (piper_command e) \<in> set (trace (snd (synthesize e t (initial fs))))"
    using r(1-3) by (simp add: snd_synthesize)
qed

subsection \<open>The responses of a request that reached the engine\<close>

lemma engine_raises_response:
  assumes "reaches_engine e t fs"
    and "fst (subprocess_run e (engine_start e (snd (stage_input e t (initial fs))))) = Inl ex"
  shows "fst (synthesize e t (initial fs)) = Inl (except_clauses e ex)"
proof -
  note r = reaches_engineD [OF assms(1)]
  have "fst (try_body e (snd (stage_input e t (initial fs)))) = Inl ex"
    using assms by (simp add: body_engine_raises)
  then show ?thesis using r(1-3) by (simp add: fst_synthesize)
qed

lemma timeout_response:
  assumes "reaches_engine e t fs" and "piper_outcome e = TimedOut"
  shows "fst (synthesize e t (initial fs)) = Inl (HTTPException 500 ''Speech synthesis timed out'')"
proof -
  have "fst (subprocess_run e (engine_start e (snd (stage_input e t (initial fs))))) =
          Inl (TimeoutExpired (piper_command e))"
    using assms(2) reaches_engineD(7) [OF assms(1)] by (simp add: fst_subprocess_run)
  with assms(1) have "fst (synthesize e t (initial fs)) =
      Inl (except_clauses e (TimeoutExpired (piper_command e)))"
    by (rule engine_raises_response)
  then show ?thesis by simp
qed

lemma nonzero_exit_response:
  assumes "reaches_engine e t fs" and "piper_outcome e = Exited rc out err" and "rc \<noteq> 0"
  shows "fst (synthesize e t (initial fs)) =
           Inl (except_clauses e (CalledProcessError rc (piper_command e) out err))"
proof -
  have "fst (subprocess_run e (engine_start e (snd (stage_input e t (initial fs))))) =
          Inl (CalledProcessError rc (piper_command e) out err)"
    using assms(2,3) reaches_engineD(7) [OF assms(1)] by (simp add: fst_subprocess_run)
  with assms(1) show ?thesis by (rule engine_raises_response)
qed

lemma missing_output_wrapped:
  assumes "reaches_engine e t fs" and "piper_outcome e = Exited 0 out err"
    and "streams_reported e out err" and "artifact_size e fs = None"
  shows "fst (synthesize e t (initial fs)) =
           Inl (HTTPException 500
                  (''Error: '' @ str_exc e (HTTPException 500 ''Audio file was not generated'')))"
proof -
  note r = reaches_engineD [OF assms(1)]
  have "fst (try_body e (snd (stage_input e t (initial fs)))) =
          Inl (HTTPException 500 ''Audio file was not generated'')"
    using assms by (rule body_missing_output)
  then show ?thesis using r(1-3) by (simp add: fst_synthesize)
qed

lemma small_output_wrapped:
  assumes "reaches_engine e t fs" and "piper_outcome e = Exited 0 out err"
    and "streams_reported e out err"
    and "artifact_size e fs = Some n" and "n < 1000" and "size_printed e n"
  shows "fst (synthesize e t (initial fs)) =
           Inl (HTTPException 500
                  (''Error: '' @ str_exc e (HTTPException 500
                     ''Generated audio file appears to be empty or corrupted'')))"
proof -
  note r = reaches_engineD [OF assms(1)]
  have "fst (try_body e (snd (stage_input e t (initial fs)))) =
          Inl (HTTPException 500 ''Generated audio file appears to be empty or corrupted'')"
    using assms by (rule body_small_output)
  then show ?thesis using r(1-3) by (simp add: fst_synthesize)
qed

lemma small_output_raises:
  assumes "reaches_engine e t fs" and "piper_outcome e = Exited 0 out err"
    and "artifact_size e fs = Some n" and "n < 1000"
  shows "\<exists>ex. unexpected ex \<and>
              fst (synthesize e t (initial fs)) =
                Inl (HTTPException 500 (''Error: '' @ str_exc e ex))"
proof -
  note r = reaches_engineD [OF assms(1)]
  have "artifact_size e fs = None \<or> (\<exists>n. artifact_size e fs = Some n \<and> n < 1000)"
    using assms(3,4) by simp
  with assms(1,2) obtain ex
    where ex: "fst (try_body e (snd (stage_input e t (initial fs)))) = Inl ex" "unexpected ex"
    using body_small_raises by blast
  then have "fst (synthesize e t (initial fs)) = Inl (except_clauses e ex)"
    using r(1-3) by (simp add: fst_synthesize)
  with ex(2) show ?thesis by (auto simp: except_unexpected)
qed

text \<open>The response to a valid request whose input was staged, when a configured path is
  missing.\<close>

lemma missing_path_wrapped:
  assumes "strip e t \<noteq> []" and "length t \<le> 1000" and "staged e t"
    and "PIPER_PATH e \<notin> dom fs \<or> MODEL_PATH e \<notin> dom fs"
  shows "fst (synthesize e t (initial fs)) =
           Inl (HTTPException 500
                  (''Error: '' @ str_exc e (HTTPException 500
                     (if PIPER_PATH e \<notin> dom fs
                      then ''Piper executable not found at '' @ PIPER_PATH e
                      else ''Model file not found at '' @ MODEL_PATH e))))"
proof -
  let ?w1 = "snd (stage_input e t (initial fs))"
  have "fst (try_body e ?w1) =
          Inl (HTTPException 500
                 (if PIPER_PATH e \<notin> dom fs
                  then ''Piper executable not found at '' @ PIPER_PATH e
                  else ''Model file not found at '' @ MODEL_PATH e))"
  proof (cases "PIPER_PATH e \<in> dom fs")
    case False
    then have "PIPER_PATH e \<notin> dom (files ?w1)"
      using assms(3) by (simp add: dom_staged initial_def)
    then show ?thesis using False by (simp add: try_no_piper)
  next
    case True
    with assms(4) have "MODEL_PATH e \<notin> dom fs" by simp
    then have "MODEL_PATH e \<notin> dom (files ?w1)"
      using assms(3) by (simp add: dom_staged initial_def)
    moreover have "PIPER_PATH e \<in> dom (files ?w1)"
      using True assms(3) by (simp add: dom_staged initial_def)
    ultimately show ?thesis using True by (simp add: try_no_model)
  qed
  then show ?thesis using assms(1-3) by (simp add: fst_synthesize)
qed

subsection \<open>What a refused removal can change\<close>

text \<open>The two fields that say whether the host refuses a removal are read by
  \<open>unlink_quietly\<close> only: every other step is the same on a host that differs in them.\<close>

lemma paths_ignore_refusal [simp]:
  "IS_WINDOWS (e\<lparr>unlink_refused_early := a, unlink_refused_final := b\<rparr>) = IS_WINDOWS e"
  "PIPER_PATH (e\<lparr>unlink_refused_early := a, unlink_refused_final := b\<rparr>) = PIPER_PATH e"
  "MODEL_PATH (e\<lparr>unlink_refused_early := a, unlink_refused_final := b\<rparr>) = MODEL_PATH e"
  "output_file (e\<lparr>unlink_refused_early := a, unlink_refused_final := b\<rparr>) = output_file e"
  "temp_file_path (e\<lparr>unlink_refused_early := a, unlink_refused_final := b\<rparr>) = temp_file_path e"
  "strip (e\<lparr>unlink_refused_early := a, unlink_refused_final := b\<rparr>) t = strip e t"
  "staged (e\<lparr>unlink_refused_early := a, unlink_refused_final := b\<rparr>) t = staged e t"
  by (simp_all add: IS_WINDOWS_def PIPER_PATH_def MODEL_PATH_def output_file_def
      temp_file_path_def strip_def staged_def)

lemma steps_ignore_refusal [simp]:
  "piper_command (e\<lparr>unlink_refused_early := a, unlink_refused_final := b\<rparr>) = piper_command e"
  "stage_input (e\<lparr>unlink_refused_early := a, unlink_refused_final := b\<rparr>) t w = stage_input e t w"
  "print (e\<lparr>unlink_refused_early := a, unlink_refused_final := b\<rparr>) s w = print e s w"
  by (simp_all add: piper_command_def stage_input_def print_def Let_def split: option.splits)

lemma make_executable_ignores_refusal [simp]:
  "make_executable (e\<lparr>unlink_refused_early := a, unlink_refused_final := b\<rparr>) w =
     make_executable e w"
  by (simp add: make_executable_def os_chmod_def split: option.splits prod.splits)

lemma run_ignores_refusal [simp]:
  "subprocess_run (e\<lparr>unlink_refused_early := a, unlink_refused_final := b\<rparr>) w =
     subprocess_run e w"
  by (simp add: subprocess_run_def Let_def split: proc_outcome.splits option.splits)

lemma print_stream_ignores_refusal [simp]:
  "print_stream (e\<lparr>unlink_refused_early := a, unlink_refused_final := b\<rparr>) label bs =
     print_stream e label bs"
  by (rule ext) (simp add: print_stream_def split: sum.splits)

lemma report_ignores_refusal [simp]:
  "report_streams (e\<lparr>unlink_refused_early := a, unlink_refused_final := b\<rparr>) out err w =
     report_streams e out err w"
  by (simp add: report_streams_def)

lemma verify_ignores_refusal [simp]:
  "verify_output (e\<lparr>unlink_refused_early := a, unlink_refused_final := b\<rparr>) w =
     verify_output e w"
  by (simp add: verify_output_def os_path_exists_def Let_def)

lemma except_ignores_refusal [simp]:
  "except_clauses (e\<lparr>unlink_refused_early := a, unlink_refused_final := b\<rparr>) ex =
     except_clauses e ex"
  by (cases ex) simp_all

lemma fst_respond_ignores_refusal [simp]:
  "fst (respond (e\<lparr>unlink_refused_early := a, unlink_refused_final := b\<rparr>) w) =
     fst (respond e w)"
  by (simp add: respond_def Let_def)

lemma fst_and_then_cong:
  assumes "\<And>x. fst r = Inr x \<Longrightarrow> fst (k x (snd r)) = fst (k' x (snd r))"
  shows "fst (and_then r k) = fst (and_then r k')"
proof (cases r)
  case (Pair res w1)
  with assms show ?thesis by (cases res) simp_all
qed

lemma fst_deliver_ignores_refusal:
  "fst (deliver (e\<lparr>unlink_refused_early := a, unlink_refused_final := b\<rparr>) streams w) =
     fst (deliver e streams w)"
  unfolding deliver_def report_ignores_refusal verify_ignores_refusal
  by (rule fst_and_then_cong) (rule fst_and_then_cong, rule fst_respond_ignores_refusal)

lemma fst_try_body_ignores_refusal:
  "fst (try_body (e\<lparr>unlink_refused_early := a, unlink_refused_final := b\<rparr>) w) =
     fst (try_body e w)"
proof (cases "PIPER_PATH e \<in> dom (files w)")
  case False
  then show ?thesis by (simp add: try_no_piper)
next
  case piper: True
  show ?thesis
  proof (cases "MODEL_PATH e \<in> dom (files w)")
    case False
    with piper show ?thesis by (simp add: try_no_model)
  next
    case True
    let ?e' = "e\<lparr>unlink_refused_early := a, unlink_refused_final := b\<rparr>"
    have same: "fst (and_then r (\<lambda>_ w3. and_then (subprocess_run e w3) (deliver ?e'))) =
                fst (and_then r (\<lambda>_ w3. and_then (subprocess_run e w3) (deliver e)))" for r
      by (rule fst_and_then_cong) (rule fst_and_then_cong, rule fst_deliver_ignores_refusal)
    from piper True show ?thesis by (simp add: try_found same)
  qed
qed

lemma response_ignores_refusal:
  "fst (synthesize (e\<lparr>unlink_refused_early := a, unlink_refused_final := b\<rparr>) t w) =
     fst (synthesize e t w)"
proof (cases "strip e t = [] \<or> length t > 1000")
  case True
  then have "strip (e\<lparr>unlink_refused_early := a, unlink_refused_final := b\<rparr>) t = [] \<or>
             length t > 1000"
    by simp
  then show ?thesis using True by (simp add: synthesize_invalid)
next
  case False
  then have valid: "strip e t \<noteq> []" "length t \<le> 1000" by simp_all
  show ?thesis
  proof (cases "staged e t")
    case True
    with valid show ?thesis
      by (simp add: fst_synthesize fst_try_body_ignores_refusal split: sum.splits)
  next
    case False
    then obtain ex where "fst (stage_input e t w) = Inl ex" using stage_input_raises by blast
    with valid show ?thesis by (simp add: synthesize_unstaged)
  qed
qed

subsection \<open>How often the staged input is removed\<close>

lemma deletions_append [simp]:
  "deletions p (xs @ ys) = deletions p xs + deletions p ys"
  by (simp add: deletions_def)

lemma deletions_Nil [simp]: "deletions p [] = 0"
  by (simp add: deletions_def)

lemma deletions_Cons [simp]:
  "deletions p (ev # evs) = (if ev = Unlink p True then 1 else 0) + deletions p evs"
  by (simp add: deletions_def)

text \<open>A valid request whose input was staged: the file is there until the body ends, and
  then the two removals decide.\<close>

lemma staged_removals:
  assumes "strip e t \<noteq> []" and "length t \<le> 1000" and "staged e t"
  shows "CreateTemp (temp_file_path e) \<in> set (trace (snd (synthesize e t (initial fs)))) \<and>
         deletions (temp_file_path e) (trace (snd (synthesize e t (initial fs)))) =
           (if \<not> unlink_refused_final e \<or>
               (served_path (fst (synthesize e t (initial fs))) \<noteq> None \<and>
                \<not> unlink_refused_early e)
            then 1 else 0) \<and>
         (temp_file_path e \<in> dom (files (snd (synthesize e t (initial fs)))) \<longleftrightarrow>
            deletions (temp_file_path e) (trace (snd (synthesize e t (initial fs)))) = 0) \<and>
         list_ex is_unlink (trace (snd (synthesize e t (initial fs))))"
proof -
  let ?w1 = "snd (stage_input e t (initial fs))"
  let ?tmp = "temp_file_path e"
  obtain w' where q: "quiet ?w1 w'" and ends: "body_ends e w' (try_body e ?w1)"
    using try_body_paths by blast
  have "deletions ?tmp (trace ?w1) = 0" using assms(3) by (simp add: trace_staged initial_def)
  then have none: "deletions ?tmp (trace w')  = 0" using quietD_deletions [OF q] by simp
  have "?tmp \<in> dom (files ?w1)" using assms(3) by (simp add: dom_staged)
  with q have live: "?tmp \<in> dom (files w')" by (rule quietD_dom)
  have "CreateTemp ?tmp \<in> set (trace ?w1)" using assms(3) by (simp add: trace_staged)
  with q have created: "CreateTemp ?tmp \<in> set (trace w')" by (rule quietD_trace)
  from ends consider
    (raised) ex where "try_body e ?w1 = (Inl ex, w')"
  | (served) resp where
      "try_body e ?w1 = (Inr resp, unlink_quietly (unlink_refused_early e) ?tmp w')"
    by (auto simp: body_ends_def)
  then show ?thesis
  proof cases
    case raised
    then have final: "snd (synthesize e t (initial fs)) =
                 unlink_quietly (unlink_refused_final e) ?tmp w'"
      and unserved: "served_path (fst (synthesize e t (initial fs))) = None"
      using assms by (simp_all add: snd_synthesize fst_synthesize)
    show ?thesis
      unfolding final unserved using none live created
      by (cases "unlink_refused_final e") simp_all
  next
    case served
    obtain p media name headers where "resp = FileResponse p media name headers"
      by (cases resp)
    with served have final: "snd (synthesize e t (initial fs)) =
                 unlink_quietly (unlink_refused_final e) ?tmp
                   (unlink_quietly (unlink_refused_early e) ?tmp w')"
      and is_served: "served_path (fst (synthesize e t (initial fs))) = Some p"
      using assms by (simp_all add: snd_synthesize fst_synthesize)
    show ?thesis
      unfolding final is_served using none live created
      by (cases "unlink_refused_final e"; cases "unlink_refused_early e") simp_all
  qed
qed

text \<open>A request whose staged file is created and whose write raises: the handler ends
  there.\<close>

lemma write_fails_response:
  assumes "strip e t \<noteq> []" and "length t \<le> 1000"
    and "mkstemp_error e = None" and "encode_error t = None" and "write_error e = Some msg"
  shows "synthesize e t (initial fs) =
           (Inl (OtherError msg),
            \<lparr>files = fs(temp_file_path e \<mapsto> \<lparr>fsize = 0, fexec = False\<rparr>),
             trace = [CreateTemp (temp_file_path e), WriteText (temp_file_path e) t]\<rparr>)"
proof -
  have s: "stage_input e t (initial fs) =
      (Inl (OtherError msg),
       \<lparr>files = fs(temp_file_path e \<mapsto> \<lparr>fsize = 0, fexec = False\<rparr>),
        trace = [CreateTemp (temp_file_path e), WriteText (temp_file_path e) t]\<rparr>)"
    using assms(3-5) by (simp add: write_fails initial_def)
  then have "fst (stage_input e t (initial fs)) = Inl (OtherError msg)" by simp
  with assms(1,2) have "synthesize e t (initial fs) =
      (Inl (OtherError msg), snd (stage_input e t (initial fs)))"
    by (rule synthesize_unstaged)
  with s show ?thesis by simp
qed

subsection \<open>The concrete host\<close>

lemma linux_reaches_engine:
  assumes "platform_system e = ''Linux''" and "isspace e = py_isspace"
    and "mkstemp_error e = None" and "write_error e = None"
    and "chmod_error e = None" and "open_error e = None"
  shows "reaches_engine e hello_world app_files"
  using assms
  by (simp add: reaches_engine_def staged_def made_executable_def encode_error_def
      surrogate_def strip_def hello_world_def py_isspace_def PIPER_PATH_def MODEL_PATH_def
      IS_WINDOWS_def app_files_def)

lemma linux_valid_text:
  assumes "isspace e = py_isspace"
  shows "strip e hello_world \<noteq> []" and "length hello_world \<le> 1000"
  using assms by (simp_all add: strip_def hello_world_def py_isspace_def)

lemma digits_500: "digits 500 = ''500''"
  by (simp add: digits.simps digit_def)

lemma digits_0: "digits 0 = ''0''"
  by (simp add: digits.simps digit_def)

lemma digits_1: "digits (Suc 0) = ''1''"
  by (simp add: digits.simps digit_def)

lemma decode_0xFF:
  "decode [CHR 0xFF] = Inl (UnicodeDecodeError [CHR 0xFF] 0 1 ''invalid start byte'')"
  by (simp add: decode_def)

lemma undecodable_stdout_response:
  assumes "reaches_engine e t fs" and "piper_outcome e = Exited 0 out err"
    and "decode out = Inl ex"
  shows "fst (synthesize e t (initial fs)) = Inl (except_clauses e ex)"
proof -
  note r = reaches_engineD [OF assms(1)]
  let ?w4 = "snd (subprocess_run e (engine_start e (snd (stage_input e t (initial fs)))))"
  have "report_streams e out err ?w4 = (Inl ex, ?w4)"
    using assms(3) by (simp add: report_streams_def print_stream_undecodable)
  then have "fst (deliver e (out, err) ?w4) = Inl ex" by (simp add: deliver_def)
  then have "fst (try_body e (snd (stage_input e t (initial fs)))) = Inl ex"
    using assms(1,2) by (simp add: body_after_engine)
  then show ?thesis using r(1-3) by (simp add: fst_synthesize)
qed

lemma decode_error_text:
  "py_str names (UnicodeDecodeError [CHR 0xFF] 0 (Suc 0) ''invalid start byte'') =
     quoted ''utf-8'' @ '' codec can't decode byte 0xff in position 0: invalid start byte''"
  by (simp add: hex2_def hex_digit_def digits_0)

lemma decode_error_text_has_no_phrase:
  "\<not> sublist ''appears to be empty or corrupted''
       (''Error: '' @ quoted ''utf-8'' @
        '' codec can't decode byte 0xff in position 0: invalid start byte'')"
proof
  assume "sublist ''appears to be empty or corrupted''
       (''Error: '' @ quoted ''utf-8'' @
        '' codec can't decode byte 0xff in position 0: invalid start byte'')"
  then have "set ''appears to be empty or corrupted'' \<subseteq>
       set (''Error: '' @ quoted ''utf-8'' @
        '' codec can't decode byte 0xff in position 0: invalid start byte'')"
    by (rule set_mono_sublist)
  moreover have "CHR ''m'' \<in> set ''appears to be empty or corrupted''" by simp
  ultimately have "CHR ''m'' \<in> set (''Error: '' @ quoted ''utf-8'' @
        '' codec can't decode byte 0xff in position 0: invalid start byte'')"
    by blast
  then show False by (simp add: quoted_def)
qed

lemma success_response:
  assumes "reaches_engine e t fs" and "piper_outcome e = Exited 0 out err"
    and "streams_reported e out err"
    and "artifact_size e fs = Some n" and "\<not> n < 1000" and "size_printed e n"
  shows "fst (synthesize e t (initial fs)) =
           Inr (FileResponse (output_file e) ''audio/wav''
                  (''speech_'' @ take 8 (uuid4_hex e) @ ''.wav'')
                  [(''Content-Disposition'', ''attachment''), (''Cache-Control'', ''no-cache'')])"
proof -
  note r = reaches_engineD [OF assms(1)]
  let ?w4 = "snd (subprocess_run e (engine_start e (snd (stage_input e t (initial fs)))))"
  let ?w5 = "log (Print (''Piper stderr: '' @ err)) (log (Print (''Piper stdout: '' @ out)) ?w4)"
  have "map_option fsize (files ?w4 (output_file e)) = Some n"
    using assms(1,2,4) by (simp add: artifact_after_run)
  then obtain f where f: "files ?w5 (output_file e) = Some f" "fsize f = n" by auto
  then have "fst (verify_output e ?w5) = Inr ()"
    using assms(5,6) by (simp add: verify_ok)
  then have "and_then (verify_output e ?w5) (\<lambda>_. respond e) =
               respond e (snd (verify_output e ?w5))"
    by (rule and_then_fst_go)
  then have "fst (deliver e (out, err) ?w4) = fst (respond e (snd (verify_output e ?w5)))"
    using assms(3) by (simp add: deliver_reported)
  then have "fst (try_body e (snd (stage_input e t (initial fs)))) =
           Inr (FileResponse (output_file e) ''audio/wav''
                  (''speech_'' @ take 8 (uuid4_hex e) @ ''.wav'')
                  [(''Content-Disposition'', ''attachment''), (''Cache-Control'', ''no-cache'')])"
    using assms(1,2) by (simp add: body_after_engine respond_def Let_def)
  then show ?thesis using r(1-3) by (simp add: fst_synthesize)
qed

subsection \<open>\<open>health_check\<close>, one observation at a time\<close>

lemma health_check_returns_iff:
  "(\<exists>r. fst (health_check e w) = Inr r) \<longleftrightarrow>
     getcwd_error e = None \<and> (listdir_error e = None \<or> ''.'' \<notin> dom (files w))"
  by (auto simp: health_check_def Let_def case_prod_beta os_path_exists_def os_access_x_def
      domIff split: option.splits)

lemma health_check_getcwd_fails:
  "getcwd_error e = Some msg \<Longrightarrow> fst (health_check e w) = Inl (OtherError msg)"
  by (simp add: health_check_def Let_def case_prod_beta)

lemma health_report_status:
  assumes "fst (health_check e w) = Inr r"
  shows "status r =
           (if PIPER_PATH e \<in> dom (files w) \<and> MODEL_PATH e \<in> dom (files w) \<and>
               (IS_WINDOWS e \<or> fst (os_access_x (PIPER_PATH e) w))
            then ''healthy'' else ''unhealthy'')"
  using assms
  by (auto simp: health_check_def Let_def case_prod_beta os_path_exists_def os_access_x_def
      domIff split: option.splits if_splits)

lemma health_report_entries:
  assumes "fst (health_check e w) = Inr r"
  shows "piper_found r = (PIPER_PATH e \<in> dom (files w))"
    and "model_found r = (MODEL_PATH e \<in> dom (files w))"
    and "piper_executable r =
           (IS_WINDOWS e \<or> PIPER_PATH e \<notin> dom (files w) \<or> fst (os_access_x (PIPER_PATH e) w))"
  using assms
  by (auto simp: health_check_def Let_def case_prod_beta os_path_exists_def os_access_x_def
      domIff split: option.splits if_splits)

lemma health_check_frame: "files (snd (health_check e w)) = files w"
  by (simp add: health_check_def Let_def case_prod_beta os_path_exists_def os_access_x_def
      split: option.splits)

lemma health_check_reads_only:
  assumes "ev \<in> set (trace (snd (health_check e (initial fs))))"
  shows "\<not> mutates ev \<and> \<not> is_run ev"
  using assms
  by (auto simp: health_check_def Let_def case_prod_beta os_path_exists_def os_access_x_def
      initial_def split: option.splits if_splits)

section \<open>The claims\<close>

text \<open>
  C3. A text that is empty after trimming, or longer than 1000 characters before trimming,
  is answered with status 400, with the detail of the first check that fails; the world is
  returned as it was: no file is touched, no process is started, nothing is logged.
\<close>

theorem synthesize_rejects_invalid_text:
  assumes "strip e t = [] \<or> length t > 1000"
  shows "fst (synthesize e t w) =
           Inl (HTTPException 400
                  (if strip e t = [] then ''Text cannot be empty''
                   else ''Text too long (max 1000 characters)'')) \<and>
         snd (synthesize e t w) = w"
  using assms by (auto simp: synthesize_def)

theorem synthesize_rejects_invalid_text_witness:
  "(strip linux_host [32, 9] = [] \<or> length [32, 9 :: nat] > 1000) \<and>
   synthesize linux_host [32, 9] (initial app_files) =
     (Inl (HTTPException 400 ''Text cannot be empty''), initial app_files)"
proof -
  have h: "strip linux_host [32, 9] = [] \<or> length [32, 9 :: nat] > 1000"
    by (simp add: strip_def linux_host_def py_isspace_def)
  have s: "strip linux_host [32, 9] = []"
    by (simp add: strip_def linux_host_def py_isspace_def)
  show ?thesis
    using h s synthesize_rejects_invalid_text [OF h, of "initial app_files"]
    by (simp add: prod_eq_iff)
qed

text \<open>
  C10. A text of whitespace only gets the detail \<open>Text cannot be empty\<close> whatever its
  length, also above 1000 characters: the emptiness check comes first, so such a text
  never gets the \<open>Text too long\<close> detail.
\<close>

theorem whitespace_only_text_is_empty_error:
  assumes "\<forall>c \<in> set t. isspace e c"
  shows "fst (synthesize e t w) = Inl (HTTPException 400 ''Text cannot be empty'') \<and>
         fst (synthesize e t w) \<noteq> Inl (HTTPException 400 ''Text too long (max 1000 characters)'')"
proof -
  have "strip e t = []" using assms by (simp add: strip_empty_iff)
  then show ?thesis by (simp add: synthesize_def)
qed

theorem whitespace_only_text_is_empty_error_witness:
  "list_all (isspace linux_host) (replicate 1001 32) \<and>
   length (replicate 1001 (32::nat)) > 1000 \<and>
   fst (synthesize linux_host (replicate 1001 32) (initial app_files)) =
     Inl (HTTPException 400 ''Text cannot be empty'')"
proof -
  have h: "\<forall>c \<in> set (replicate 1001 32). isspace linux_host c"
    by (simp add: linux_host_def py_isspace_def)
  show ?thesis
    using h whitespace_only_text_is_empty_error [OF h, of "initial app_files"]
    by (simp add: list_all_iff)
qed

text \<open>
  C4. When the engine runs into the 30 second timeout, the request ends with status 500
  and the detail \<open>Speech synthesis timed out\<close>, exactly, and no file is served. The request
  is one that reached the engine, \<open>reaches_engine\<close>: the text is valid, the input is staged,
  both configured paths exist and nothing raises before \<open>subprocess.run\<close>. These are exactly
  the requests in which \<open>subprocess.run\<close> is called (lemma \<open>engine_reached_iff\<close>).
\<close>

theorem timeout_reports_timed_out:
  assumes "reaches_engine e t fs" and "piper_outcome e = TimedOut"
  shows "fst (synthesize e t (initial fs)) = Inl (HTTPException 500 ''Speech synthesis timed out'') \<and>
         served_path (fst (synthesize e t (initial fs))) = None \<and>
         Run (piper_command e) \<in> set (trace (snd (synthesize e t (initial fs))))"
proof -
  have "fst (synthesize e t (initial fs)) = Inl (HTTPException 500 ''Speech synthesis timed out'')"
    using assms by (rule timeout_response)
  moreover have "Run (piper_command e) \<in> set (trace (snd (synthesize e t (initial fs))))"
    using assms(1) by (simp add: engine_reached_iff)
  ultimately show ?thesis by simp
qed

theorem timeout_reports_timed_out_witness:
  "reaches_engine (linux_host\<lparr>piper_outcome := TimedOut\<rparr>) hello_world app_files \<and>
   piper_outcome (linux_host\<lparr>piper_outcome := TimedOut\<rparr>) = TimedOut \<and>
   fst (synthesize (linux_host\<lparr>piper_outcome := TimedOut\<rparr>) hello_world (initial app_files)) =
     Inl (HTTPException 500 ''Speech synthesis timed out'') \<and>
   Run [''./piper'', ''--model'', ''./exported_model.onnx'', ''--output_file'',
        ''output_1b4e28ba-2fa1-41d2-883f-0016d3cca427.wav'']
     \<in> set (trace (snd (synthesize (linux_host\<lparr>piper_outcome := TimedOut\<rparr>) hello_world
                           (initial app_files))))"
proof -
  let ?e = "linux_host\<lparr>piper_outcome := TimedOut\<rparr>"
  have h1: "reaches_engine ?e hello_world app_files"
    by (rule linux_reaches_engine) (simp_all add: linux_host_def)
  have h2: "piper_outcome ?e = TimedOut" by simp
  have c: "piper_command ?e =
             [''./piper'', ''--model'', ''./exported_model.onnx'', ''--output_file'',
              ''output_1b4e28ba-2fa1-41d2-883f-0016d3cca427.wav'']"
    by (simp add: piper_command_def PIPER_PATH_def MODEL_PATH_def IS_WINDOWS_def
        output_file_def linux_host_def)
  show ?thesis
    using h1 timeout_reports_timed_out [OF h1 h2] c by simp
qed

text \<open>
  C2. The claim asks for the detail \<open>Audio file was not generated\<close> when the engine ends
  with return code zero and no file is at the output path. The handler raises an exception
  with that detail inside the \<open>try\<close> body, where the last \<open>except\<close> clause catches it and
  raises another one: the detail of the response is \<open>Error: \<close> followed by \<open>str\<close> of the
  first exception, on every host. The theorem runs the handler on such a request.
\<close>

theorem missing_output_detail_is_wrapped:
  "fst (synthesize (linux_host\<lparr>piper_writes := None\<rparr>) hello_world (initial app_files)) =
     Inl (HTTPException 500 ''Error: 500: Audio file was not generated'') \<and>
   fst (synthesize (linux_host\<lparr>piper_writes := None\<rparr>) hello_world (initial app_files)) \<noteq>
     Inl (HTTPException 500 ''Audio file was not generated'')"
proof -
  let ?e = "linux_host\<lparr>piper_writes := None\<rparr>"
  have h1: "reaches_engine ?e hello_world app_files"
    by (rule linux_reaches_engine) (simp_all add: linux_host_def)
  have h2: "piper_outcome ?e = Exited 0 [] []" by (simp add: linux_host_def)
  have h3: "streams_reported ?e [] []" by (simp add: streams_reported_def linux_host_def)
  have h4: "artifact_size ?e app_files = None"
    by (simp add: artifact_size_def output_file_def app_files_def linux_host_def)
  have s: "str_exc ?e = py_str linux_signals" by (simp add: linux_host_def)
  show ?thesis
    using missing_output_wrapped [OF h1 h2 h3 h4] s by (simp add: digits_500)
qed

text \<open>
  C5. When the engine ends with a non-zero return code and the captured error stream is
  UTF-8, the request ends with status 500 and the detail \<open>Piper execution failed: \<close>
  followed by the captured error stream as it is, or by \<open>str\<close> of the exception when that
  stream is empty. The claim asks for this on every such run; the \<open>except\<close> clause decodes
  the stream, and on a stream that is not UTF-8 the decoding raises inside the clause, so
  that a \<open>UnicodeDecodeError\<close> leaves the handler instead of the \<open>HTTPException\<close>:
  the last theorem of the three runs the handler on an error stream that is the single
  byte \<open>0xFF\<close>.
\<close>

theorem nonzero_exit_reports_stderr:
  assumes "reaches_engine e t fs"
    and "piper_outcome e = Exited rc out err" and "rc \<noteq> 0"
    and "valid_utf8 err"
  shows "fst (synthesize e t (initial fs)) =
           Inl (HTTPException 500
                  (''Piper execution failed: '' @
                     (if err \<noteq> [] then err
                      else str_exc e (CalledProcessError rc (piper_command e) out err))))"
proof -
  have "fst (synthesize e t (initial fs)) =
          Inl (except_clauses e (CalledProcessError rc (piper_command e) out err))"
    using assms(1-3) by (rule nonzero_exit_response)
  then show ?thesis using assms(4) by (simp add: decode_valid)
qed

theorem nonzero_exit_reports_stderr_witness:
  "reaches_engine (linux_host\<lparr>piper_outcome := Exited 1 [] ''model not found''\<rparr>)
     hello_world app_files \<and>
   valid_utf8 ''model not found'' \<and>
   fst (synthesize (linux_host\<lparr>piper_outcome := Exited 1 [] ''model not found''\<rparr>)
         hello_world (initial app_files)) =
     Inl (HTTPException 500 ''Piper execution failed: model not found'') \<and>
   fst (synthesize (linux_host\<lparr>piper_outcome := Exited 1 [] []\<rparr>)
         hello_world (initial app_files)) =
     Inl (HTTPException 500
            (''Piper execution failed: Command '' @
             quoted (py_str_list (piper_command linux_host)) @
             '' returned non-zero exit status 1.''))"
proof -
  let ?e = "linux_host\<lparr>piper_outcome := Exited 1 [] ''model not found''\<rparr>"
  let ?e' = "linux_host\<lparr>piper_outcome := Exited 1 [] []\<rparr>"
  have h1: "reaches_engine ?e hello_world app_files"
    by (rule linux_reaches_engine) (simp_all add: linux_host_def)
  have h1': "reaches_engine ?e' hello_world app_files"
    by (rule linux_reaches_engine) (simp_all add: linux_host_def)
  have h2: "piper_outcome ?e = Exited 1 [] ''model not found''"
    "piper_outcome ?e' = Exited 1 [] []" by simp_all
  have h3: "(1::int) \<noteq> 0" by simp
  have h4: "valid_utf8 ''model not found''" by (simp add: valid_utf8_def)
  have h4': "valid_utf8 []" by simp
  have c: "piper_command ?e' = piper_command linux_host"
    by (simp add: piper_command_def PIPER_PATH_def MODEL_PATH_def IS_WINDOWS_def
        output_file_def linux_host_def)
  have s: "str_exc ?e' = py_str linux_signals" by (simp add: linux_host_def)
  show ?thesis
    using h1 h4 nonzero_exit_reports_stderr [OF h1 h2(1) h3 h4]
      nonzero_exit_reports_stderr [OF h1' h2(2) h3 h4'] c s
    by (simp add: digits_1)
qed

theorem nonzero_exit_undecodable_stderr:
  "Run (piper_command (linux_host\<lparr>piper_outcome := Exited 1 [] [CHR 0xFF]\<rparr>))
     \<in> set (trace (snd (synthesize (linux_host\<lparr>piper_outcome := Exited 1 [] [CHR 0xFF]\<rparr>)
                           hello_world (initial app_files)))) \<and>
   piper_outcome (linux_host\<lparr>piper_outcome := Exited 1 [] [CHR 0xFF]\<rparr>) =
     Exited 1 [] [CHR 0xFF] \<and>
   fst (synthesize (linux_host\<lparr>piper_outcome := Exited 1 [] [CHR 0xFF]\<rparr>)
          hello_world (initial app_files)) =
     Inl (UnicodeDecodeError [CHR 0xFF] 0 1 ''invalid start byte'')"
proof -
  let ?e = "linux_host\<lparr>piper_outcome := Exited 1 [] [CHR 0xFF]\<rparr>"
  have h1: "reaches_engine ?e hello_world app_files"
    by (rule linux_reaches_engine) (simp_all add: linux_host_def)
  have h2: "piper_outcome ?e = Exited 1 [] [CHR 0xFF]" by simp
  have h3: "(1::int) \<noteq> 0" by simp
  have run: "Run (piper_command ?e) \<in> set (trace (snd (synthesize ?e hello_world (initial app_files))))"
    using h1 by (simp only: engine_reached_iff)
  have "fst (synthesize ?e hello_world (initial app_files)) =
          Inl (except_clauses ?e (CalledProcessError 1 (piper_command ?e) [] [CHR 0xFF]))"
    using h1 h2 h3 by (rule nonzero_exit_response)
  then have "fst (synthesize ?e hello_world (initial app_files)) =
          Inl (UnicodeDecodeError [CHR 0xFF] 0 1 ''invalid start byte'')"
    by (simp add: decode_0xFF)
  with run show ?thesis by simp
qed

text \<open>
  C6. When the engine ends with return code zero and the file at the output path has
  fewer than 1000 bytes, the request ends with status 500 and no file is served. When the
  two captured streams are UTF-8 and the log lines are printed, the exception with the
  detail \<open>Generated audio file appears to be empty or corrupted\<close> is raised inside the
  \<open>try\<close> body and caught by the last \<open>except\<close> clause, so the detail of the response is
  \<open>Error: \<close> followed by \<open>str\<close> of that exception; it contains
  \<open>appears to be empty or corrupted\<close> when \<open>str\<close> of an \<open>HTTPException\<close> shows its
  detail, as Starlette's does. The claim asks for that detail on every such run; the
  streams are decoded before the size is looked at, and when one is not UTF-8 the detail
  is that of the \<open>UnicodeDecodeError\<close>: the last theorem of the three runs the handler
  on an output stream that is the single byte \<open>0xFF\<close>.
\<close>

theorem undersized_output_rejected:
  assumes "reaches_engine e t fs"
    and "piper_outcome e = Exited 0 out err"
    and "artifact_size e fs = Some n" and "n < 1000"
  shows "(\<exists>detail. fst (synthesize e t (initial fs)) = Inl (HTTPException 500 detail)) \<and>
         served_path (fst (synthesize e t (initial fs))) = None \<and>
         (streams_reported e out err \<and> size_printed e n \<longrightarrow>
            fst (synthesize e t (initial fs)) =
              Inl (HTTPException 500
                     (''Error: '' @ str_exc e (HTTPException 500
                        ''Generated audio file appears to be empty or corrupted''))) \<and>
            ((\<forall>d. sublist d (str_exc e (HTTPException 500 d))) \<longrightarrow>
               sublist ''appears to be empty or corrupted''
                 (''Error: '' @ str_exc e (HTTPException 500
                    ''Generated audio file appears to be empty or corrupted''))))"
proof -
  let ?msg = "''Generated audio file appears to be empty or corrupted''"
  let ?detail = "''Error: '' @ str_exc e (HTTPException 500 ?msg)"
  obtain ex where "fst (synthesize e t (initial fs)) =
                     Inl (HTTPException 500 (''Error: '' @ str_exc e ex))"
    using small_output_raises [OF assms] by blast
  then have always: "(\<exists>detail. fst (synthesize e t (initial fs)) = Inl (HTTPException 500 detail)) \<and>
         served_path (fst (synthesize e t (initial fs))) = None"
    by simp
  have wrapped: "fst (synthesize e t (initial fs)) = Inl (HTTPException 500 ?detail)"
    if "streams_reported e out err" and "size_printed e n"
    using assms(1,2) that(1) assms(3,4) that(2) by (rule small_output_wrapped)
  have phrase: "sublist ''appears to be empty or corrupted'' ?detail"
    if lib: "\<forall>d. sublist d (str_exc e (HTTPException 500 d))"
  proof -
    have "sublist ''appears to be empty or corrupted''
            (''Generated audio file '' @ ''appears to be empty or corrupted'')"
      by (rule sublist_append_leftI)
    then have "sublist ''appears to be empty or corrupted'' ?msg" by simp
    moreover have "sublist ?msg (str_exc e (HTTPException 500 ?msg))" using lib by blast
    ultimately have "sublist ''appears to be empty or corrupted''
        (str_exc e (HTTPException 500 ?msg))"
      by (rule sublist_order.order.trans)
    moreover have "sublist (str_exc e (HTTPException 500 ?msg)) ?detail"
      by (rule sublist_append_leftI)
    ultimately show ?thesis by (rule sublist_order.order.trans)
  qed
  from always wrapped phrase show ?thesis by blast
qed

theorem undersized_output_rejected_witness:
  "reaches_engine (linux_host\<lparr>piper_writes := Some 44\<rparr>) hello_world app_files \<and>
   piper_outcome (linux_host\<lparr>piper_writes := Some 44\<rparr>) = Exited 0 [] [] \<and>
   artifact_size (linux_host\<lparr>piper_writes := Some 44\<rparr>) app_files = Some 44 \<and>
   fst (synthesize (linux_host\<lparr>piper_writes := Some 44\<rparr>) hello_world (initial app_files)) =
     Inl (HTTPException 500
            ''Error: 500: Generated audio file appears to be empty or corrupted'') \<and>
   sublist ''appears to be empty or corrupted''
     ''Error: 500: Generated audio file appears to be empty or corrupted''"
proof -
  let ?e = "linux_host\<lparr>piper_writes := Some 44\<rparr>"
  have h1: "reaches_engine ?e hello_world app_files"
    by (rule linux_reaches_engine) (simp_all add: linux_host_def)
  have h2: "piper_outcome ?e = Exited 0 [] []" by (simp add: linux_host_def)
  have h3: "artifact_size ?e app_files = Some 44" by (simp add: artifact_size_def)
  have h4: "(44::nat) < 1000" by simp
  have h5: "streams_reported ?e [] []" by (simp add: streams_reported_def linux_host_def)
  have h6: "size_printed ?e 44" by (simp add: size_printed_def linux_host_def)
  have h7: "\<forall>d. sublist d (str_exc ?e (HTTPException 500 d))"
    by (simp add: linux_host_def py_str_shows_detail del: py_str.simps)
  have s: "str_exc ?e = py_str linux_signals" by (simp add: linux_host_def)
  show ?thesis
    using undersized_output_rejected [OF h1 h2 h3 h4] h1 h2 h3 h5 h6 h7 s
    by (clarsimp simp add: digits_500 simp del: sublist_code)
qed

theorem undersized_output_undecodable_stdout:
  "Run (piper_command (linux_host\<lparr>piper_outcome := Exited 0 [CHR 0xFF] [],
                                  piper_writes := Some 44\<rparr>))
     \<in> set (trace (snd (synthesize (linux_host\<lparr>piper_outcome := Exited 0 [CHR 0xFF] [],
                                               piper_writes := Some 44\<rparr>)
                           hello_world (initial app_files)))) \<and>
   piper_outcome (linux_host\<lparr>piper_outcome := Exited 0 [CHR 0xFF] [],
                              piper_writes := Some 44\<rparr>) = Exited 0 [CHR 0xFF] [] \<and>
   artifact_size (linux_host\<lparr>piper_outcome := Exited 0 [CHR 0xFF] [],
                              piper_writes := Some 44\<rparr>) app_files = Some 44 \<and>
   fst (synthesize (linux_host\<lparr>piper_outcome := Exited 0 [CHR 0xFF] [],
                                piper_writes := Some 44\<rparr>)
          hello_world (initial app_files)) =
     Inl (HTTPException 500
            (''Error: '' @ quoted ''utf-8'' @
             '' codec can't decode byte 0xff in position 0: invalid start byte'')) \<and>
   \<not> sublist ''appears to be empty or corrupted''
       (''Error: '' @ quoted ''utf-8'' @
        '' codec can't decode byte 0xff in position 0: invalid start byte'')"
proof -
  let ?e = "linux_host\<lparr>piper_outcome := Exited 0 [CHR 0xFF] [], piper_writes := Some 44\<rparr>"
  have h1: "reaches_engine ?e hello_world app_files"
    by (rule linux_reaches_engine) (simp_all add: linux_host_def)
  have h2: "piper_outcome ?e = Exited 0 [CHR 0xFF] []" by simp
  have h3: "artifact_size ?e app_files = Some 44" by (simp add: artifact_size_def)
  have run: "Run (piper_command ?e) \<in> set (trace (snd (synthesize ?e hello_world (initial app_files))))"
    using h1 by (simp only: engine_reached_iff)
  have s: "str_exc ?e = py_str linux_signals" by (simp add: linux_host_def)
  have "fst (synthesize ?e hello_world (initial app_files)) =
          Inl (except_clauses ?e (UnicodeDecodeError [CHR 0xFF] 0 1 ''invalid start byte''))"
    using h1 h2 decode_0xFF by (rule undecodable_stdout_response)
  then have "fst (synthesize ?e hello_world (initial app_files)) =
     Inl (HTTPException 500
            (''Error: '' @ quoted ''utf-8'' @
             '' codec can't decode byte 0xff in position 0: invalid start byte''))"
    by (simp add: s decode_error_text del: py_str.simps)
  with run h2 h3 decode_error_text_has_no_phrase show ?thesis by blast
qed

text \<open>
  C7. In a valid request, when the configured engine path or model path does not exist, the
  engine is not started. When the input was staged, the request ends with status 500: the
  exception that names the missing path is raised inside the \<open>try\<close> body and caught by the
  last \<open>except\<close> clause, so the detail of the response is \<open>Error: \<close> followed by \<open>str\<close> of
  that exception; it names the path when \<open>str\<close> of an \<open>HTTPException\<close> shows its detail, as
  Starlette's does. The claim asks for that detail in every valid request; the input is
  staged before the \<open>try\<close> statement and before the paths are looked at, and when the
  staging raises, its exception leaves the handler and no detail names a path: the last
  theorem of the three runs the handler on a host that refuses the write.
\<close>

theorem missing_engine_path_reported:
  assumes "strip e t \<noteq> []" and "length t \<le> 1000"
    and "PIPER_PATH e \<notin> dom fs \<or> MODEL_PATH e \<notin> dom fs"
  shows "\<not> list_ex is_run (trace (snd (synthesize e t (initial fs)))) \<and>
         (staged e t \<longrightarrow>
            fst (synthesize e t (initial fs)) =
              Inl (HTTPException 500
                     (''Error: '' @ str_exc e (HTTPException 500
                        (if PIPER_PATH e \<notin> dom fs
                         then ''Piper executable not found at '' @ PIPER_PATH e
                         else ''Model file not found at '' @ MODEL_PATH e)))) \<and>
            ((\<forall>d. sublist d (str_exc e (HTTPException 500 d))) \<longrightarrow>
               sublist (if PIPER_PATH e \<notin> dom fs then PIPER_PATH e else MODEL_PATH e)
                 (''Error: '' @ str_exc e (HTTPException 500
                    (if PIPER_PATH e \<notin> dom fs
                     then ''Piper executable not found at '' @ PIPER_PATH e
                     else ''Model file not found at '' @ MODEL_PATH e)))))"
proof -
  let ?path = "if PIPER_PATH e \<notin> dom fs then PIPER_PATH e else MODEL_PATH e"
  let ?msg = "if PIPER_PATH e \<notin> dom fs then ''Piper executable not found at '' @ PIPER_PATH e
              else ''Model file not found at '' @ MODEL_PATH e"
  let ?detail = "''Error: '' @ str_exc e (HTTPException 500 ?msg)"
  have norun: "\<not> list_ex is_run (trace (snd (synthesize e t (initial fs))))"
    using assms by (rule missing_path_no_run)
  have wrapped: "fst (synthesize e t (initial fs)) = Inl (HTTPException 500 ?detail)"
    if "staged e t"
    using assms(1,2) that assms(3) by (rule missing_path_wrapped)
  have named: "sublist ?path ?detail"
    if lib: "\<forall>d. sublist d (str_exc e (HTTPException 500 d))"
  proof -
    have "sublist ?path ?msg"
    proof (cases "PIPER_PATH e \<notin> dom fs")
      case True
      then show ?thesis by (simp only: simp_thms if_True sublist_append_leftI)
    next
      case False
      then show ?thesis by (simp only: simp_thms if_False sublist_append_leftI)
    qed
    moreover have "sublist ?msg (str_exc e (HTTPException 500 ?msg))" using lib by blast
    ultimately have "sublist ?path (str_exc e (HTTPException 500 ?msg))"
      by (rule sublist_order.order.trans)
    moreover have "sublist (str_exc e (HTTPException 500 ?msg)) ?detail"
      by (rule sublist_append_leftI)
    ultimately show ?thesis by (rule sublist_order.order.trans)
  qed
  from norun wrapped named show ?thesis by blast
qed

theorem missing_engine_path_reported_witness:
  "strip linux_host hello_world \<noteq> [] \<and> length hello_world \<le> 1000 \<and>
   staged linux_host hello_world \<and>
   PIPER_PATH linux_host \<notin> dom [''./exported_model.onnx'' \<mapsto> \<lparr>fsize = 60000000, fexec = False\<rparr>] \<and>
   fst (synthesize linux_host hello_world
          (initial [''./exported_model.onnx'' \<mapsto> \<lparr>fsize = 60000000, fexec = False\<rparr>])) =
     Inl (HTTPException 500 ''Error: 500: Piper executable not found at ./piper'') \<and>
   sublist ''./piper'' ''Error: 500: Piper executable not found at ./piper'' \<and>
   \<not> list_ex is_run
       (trace (snd (synthesize linux_host hello_world
          (initial [''./exported_model.onnx'' \<mapsto> \<lparr>fsize = 60000000, fexec = False\<rparr>]))))"
proof -
  let ?fs = "[''./exported_model.onnx'' \<mapsto> \<lparr>fsize = 60000000, fexec = False\<rparr>]"
  have h1: "strip linux_host hello_world \<noteq> []"
    by (rule linux_valid_text) (simp add: linux_host_def)
  have h2: "length hello_world \<le> 1000" by (simp add: hello_world_def)
  have st: "staged linux_host hello_world"
    by (simp add: staged_def linux_host_def encode_error_def surrogate_def hello_world_def)
  have p: "PIPER_PATH linux_host = ''./piper''"
    by (simp add: PIPER_PATH_def IS_WINDOWS_def linux_host_def)
  have n: "PIPER_PATH linux_host \<notin> dom ?fs" by (simp add: p)
  then have h3: "PIPER_PATH linux_host \<notin> dom ?fs \<or> MODEL_PATH linux_host \<notin> dom ?fs" by simp
  have lib: "\<forall>d. sublist d (str_exc linux_host (HTTPException 500 d))"
    by (simp add: linux_host_def py_str_shows_detail del: py_str.simps)
  have s: "str_exc linux_host = py_str linux_signals" by (simp add: linux_host_def)
  show ?thesis
    using missing_engine_path_reported [OF h1 h2 h3] h1 h2 st n p lib s
    by (clarsimp simp add: digits_500 simp del: sublist_code)
qed

theorem missing_engine_path_unstaged:
  "strip (linux_host\<lparr>write_error := Some ''[Errno 28] No space left on device''\<rparr>)
     hello_world \<noteq> [] \<and>
   length hello_world \<le> 1000 \<and>
   PIPER_PATH (linux_host\<lparr>write_error := Some ''[Errno 28] No space left on device''\<rparr>)
     \<notin> dom [''./exported_model.onnx'' \<mapsto> \<lparr>fsize = 60000000, fexec = False\<rparr>] \<and>
   fst (synthesize (linux_host\<lparr>write_error := Some ''[Errno 28] No space left on device''\<rparr>)
          hello_world
          (initial [''./exported_model.onnx'' \<mapsto> \<lparr>fsize = 60000000, fexec = False\<rparr>])) =
     Inl (OtherError ''[Errno 28] No space left on device'')"
proof -
  let ?e = "linux_host\<lparr>write_error := Some ''[Errno 28] No space left on device''\<rparr>"
  let ?fs = "[''./exported_model.onnx'' \<mapsto> \<lparr>fsize = 60000000, fexec = False\<rparr>]"
  have h1: "strip ?e hello_world \<noteq> []"
    by (rule linux_valid_text) (simp add: linux_host_def)
  have h2: "length hello_world \<le> 1000" by (simp add: hello_world_def)
  have n: "PIPER_PATH ?e \<notin> dom ?fs"
    by (simp add: PIPER_PATH_def IS_WINDOWS_def linux_host_def)
  have "synthesize ?e hello_world (initial ?fs) =
      (Inl (OtherError ''[Errno 28] No space left on device''),
       \<lparr>files = ?fs(temp_file_path ?e \<mapsto> \<lparr>fsize = 0, fexec = False\<rparr>),
        trace = [CreateTemp (temp_file_path ?e), WriteText (temp_file_path ?e) hello_world]\<rparr>)"
    using h1 h2
    by (rule write_fails_response)
      (simp_all add: linux_host_def encode_error_def surrogate_def hello_world_def)
  then have "fst (synthesize ?e hello_world (initial ?fs)) =
      Inl (OtherError ''[Errno 28] No space left on device'')"
    by simp
  with h1 h2 n show ?thesis by blast
qed

text \<open>
  C8. Whenever \<open>/health\<close> returns its report, the status is \<open>healthy\<close> exactly when the
  engine path exists, the model path exists and the permission check passes, which is taken
  as passed on Windows; otherwise it is \<open>unhealthy\<close>. On every call the files are left as
  they were and every operation of the handler only reads the host: none changes it and
  none starts a process. The claim asks for a status on every call; the report also holds
  \<open>os.getcwd()\<close> and \<open>os.listdir(".")\<close>, which can raise, and then the handler returns
  no report: it returns one exactly when neither raises. The last theorem of the three
  runs the handler on a host where all three conditions hold and \<open>os.getcwd()\<close> raises.
\<close>

theorem health_status_iff:
  "(\<forall>r. fst (health_check e (initial fs)) = Inr r \<longrightarrow>
      (status r = ''healthy'' \<longleftrightarrow>
         PIPER_PATH e \<in> dom fs \<and> MODEL_PATH e \<in> dom fs \<and>
         (IS_WINDOWS e \<or> fst (os_access_x (PIPER_PATH e) (initial fs)))) \<and>
      (status r = ''healthy'' \<longleftrightarrow> piper_found r \<and> model_found r \<and> piper_executable r) \<and>
      status r \<in> {''healthy'', ''unhealthy''}) \<and>
   ((\<exists>r. fst (health_check e (initial fs)) = Inr r) \<longleftrightarrow>
      getcwd_error e = None \<and> (listdir_error e = None \<or> ''.'' \<notin> dom fs)) \<and>
   files (snd (health_check e (initial fs))) = fs \<and>
   (\<forall>ev \<in> set (trace (snd (health_check e (initial fs)))). \<not> mutates ev \<and> \<not> is_run ev)"
proof -
  have report: "(status r = ''healthy'' \<longleftrightarrow>
         PIPER_PATH e \<in> dom fs \<and> MODEL_PATH e \<in> dom fs \<and>
         (IS_WINDOWS e \<or> fst (os_access_x (PIPER_PATH e) (initial fs)))) \<and>
      (status r = ''healthy'' \<longleftrightarrow> piper_found r \<and> model_found r \<and> piper_executable r) \<and>
      status r \<in> {''healthy'', ''unhealthy''}"
    if r: "fst (health_check e (initial fs)) = Inr r" for r
  proof -
    have f: "files (initial fs) = fs" by (simp add: initial_def)
    show ?thesis
      using health_report_status [OF r] health_report_entries [OF r]
      unfolding f by (simp split: if_splits)
  qed
  have returns: "(\<exists>r. fst (health_check e (initial fs)) = Inr r) \<longleftrightarrow>
      getcwd_error e = None \<and> (listdir_error e = None \<or> ''.'' \<notin> dom fs)"
    using health_check_returns_iff [of e "initial fs"] by (simp add: initial_def)
  have frame: "files (snd (health_check e (initial fs))) = fs"
    by (simp add: health_check_frame initial_def)
  have reads: "\<forall>ev \<in> set (trace (snd (health_check e (initial fs)))). \<not> mutates ev \<and> \<not> is_run ev"
    using health_check_reads_only by blast
  from report returns frame reads show ?thesis by blast
qed

theorem health_status_iff_witness:
  "(\<exists>r. fst (health_check linux_host (initial app_files)) = Inr r \<and> status r = ''healthy'') \<and>
   PIPER_PATH linux_host \<in> dom app_files \<and> MODEL_PATH linux_host \<in> dom app_files \<and>
   fst (os_access_x (PIPER_PATH linux_host) (initial app_files)) \<and>
   getcwd_error linux_host = None \<and> listdir_error linux_host = None \<and>
   list_all (\<lambda>ev. \<not> mutates ev \<and> \<not> is_run ev)
     (trace (snd (health_check linux_host (initial app_files))))"
proof -
  have p: "PIPER_PATH linux_host = ''./piper''"
    by (simp add: PIPER_PATH_def IS_WINDOWS_def linux_host_def)
  have m: "MODEL_PATH linux_host = ''./exported_model.onnx''"
    by (simp add: MODEL_PATH_def IS_WINDOWS_def linux_host_def)
  have a: "fst (os_access_x (PIPER_PATH linux_host) (initial app_files))"
    by (simp add: p os_access_x_def initial_def app_files_def)
  have d: "PIPER_PATH linux_host \<in> dom app_files" "MODEL_PATH linux_host \<in> dom app_files"
    by (simp_all add: p m app_files_def)
  have g: "getcwd_error linux_host = None" "listdir_error linux_host = None"
    by (simp_all add: linux_host_def)
  note hs = health_status_iff [of linux_host app_files]
  from hs g obtain r where r: "fst (health_check linux_host (initial app_files)) = Inr r"
    by blast
  with hs a d have "status r = ''healthy''" by blast
  with r have ex: "\<exists>r. fst (health_check linux_host (initial app_files)) = Inr r \<and>
                       status r = ''healthy''"
    by blast
  have "list_all (\<lambda>ev. \<not> mutates ev \<and> \<not> is_run ev)
          (trace (snd (health_check linux_host (initial app_files))))"
    using hs by (simp add: list_all_iff)
  with ex a d g show ?thesis by blast
qed

theorem health_check_getcwd_raises:
  "PIPER_PATH (linux_host\<lparr>getcwd_error := Some ''[Errno 2] No such file or directory''\<rparr>)
     \<in> dom app_files \<and>
   MODEL_PATH (linux_host\<lparr>getcwd_error := Some ''[Errno 2] No such file or directory''\<rparr>)
     \<in> dom app_files \<and>
   fst (os_access_x
          (PIPER_PATH (linux_host\<lparr>getcwd_error := Some ''[Errno 2] No such file or directory''\<rparr>))
          (initial app_files)) \<and>
   fst (health_check (linux_host\<lparr>getcwd_error := Some ''[Errno 2] No such file or directory''\<rparr>)
          (initial app_files)) =
     Inl (OtherError ''[Errno 2] No such file or directory'')"
proof -
  let ?e = "linux_host\<lparr>getcwd_error := Some ''[Errno 2] No such file or directory''\<rparr>"
  have p: "PIPER_PATH ?e = ''./piper''"
    by (simp add: PIPER_PATH_def IS_WINDOWS_def linux_host_def)
  have m: "MODEL_PATH ?e = ''./exported_model.onnx''"
    by (simp add: MODEL_PATH_def IS_WINDOWS_def linux_host_def)
  have a: "fst (os_access_x (PIPER_PATH ?e) (initial app_files))"
    by (simp add: p os_access_x_def initial_def app_files_def)
  have d: "PIPER_PATH ?e \<in> dom app_files" "MODEL_PATH ?e \<in> dom app_files"
    by (simp_all add: p m app_files_def)
  have "getcwd_error ?e = Some ''[Errno 2] No such file or directory''" by simp
  then have "fst (health_check ?e (initial app_files)) =
               Inl (OtherError ''[Errno 2] No such file or directory'')"
    by (rule health_check_getcwd_fails)
  with a d show ?thesis by blast
qed

text \<open>
  C9. The handler never removes the output file: every removal it attempts, on every way
  out, is of the staged input, which is another path; every other file that was there at
  the start is there at the end; and a file the response serves is the output file and
  exists when the handler ends.
\<close>

theorem output_artifact_never_deleted:
  "(\<forall>p ok. Unlink p ok \<in> set (trace (snd (synthesize e t (initial fs)))) \<longrightarrow>
        p = temp_file_path e) \<and>
   temp_file_path e \<noteq> output_file e \<and>
   (\<forall>p. p \<in> dom fs \<longrightarrow> p \<noteq> temp_file_path e \<longrightarrow>
        p \<in> dom (files (snd (synthesize e t (initial fs))))) \<and>
   (\<forall>p. served_path (fst (synthesize e t (initial fs))) = Some p \<longrightarrow>
        p = output_file e \<and> p \<in> dom (files (snd (synthesize e t (initial fs)))))"
proof (cases "strip e t = [] \<or> length t > 1000")
  case True
  then have "synthesize e t (initial fs) =
      (Inl (HTTPException 400
              (if strip e t = [] then ''Text cannot be empty''
               else ''Text too long (max 1000 characters)'')), initial fs)"
    by (rule synthesize_invalid)
  then show ?thesis using temp_neq_output [of e] by (simp add: initial_def)
next
  case False
  then have valid: "strip e t \<noteq> []" "length t \<le> 1000" by simp_all
  let ?w1 = "snd (stage_input e t (initial fs))"
  let ?final = "unlink_quietly (unlink_refused_final e) (temp_file_path e)"
  have q1: "quiet (initial fs) ?w1" by (rule quiet_stage_input)
  show ?thesis
  proof (cases "staged e t")
    case False
    then obtain ex where "fst (stage_input e t (initial fs)) = Inl ex"
      using stage_input_raises by blast
    with valid have res: "synthesize e t (initial fs) = (Inl ex, ?w1)"
      by (rule synthesize_unstaged)
    have no_unlink: "Unlink p ok \<notin> set (trace ?w1)" for p ok
    proof
      assume "Unlink p ok \<in> set (trace ?w1)"
      with q1 have "Unlink p ok \<in> set (trace (initial fs))" by (rule quietD_unlink)
      then show False by (simp add: initial_def)
    qed
    have kept: "p \<in> dom (files ?w1)" if "p \<in> dom fs" for p
    proof -
      from that have "p \<in> dom (files (initial fs))" by (simp add: initial_def)
      with q1 show ?thesis by (rule quietD_dom)
    qed
    show ?thesis
      unfolding res using no_unlink kept temp_neq_output [of e] by simp
  next
    case True
    obtain w' where q2: "quiet ?w1 w'" and ends: "body_ends e w' (try_body e ?w1)"
      using try_body_paths by blast
    from q1 q2 have q: "quiet (initial fs) w'" by (rule quiet_trans)
    have no_unlink: "Unlink p ok \<notin> set (trace w')" for p ok
    proof
      assume "Unlink p ok \<in> set (trace w')"
      with q have "Unlink p ok \<in> set (trace (initial fs))" by (rule quietD_unlink)
      then show False by (simp add: initial_def)
    qed
    have kept: "p \<in> dom (files w')" if "p \<in> dom fs" for p
    proof -
      from that have "p \<in> dom (files (initial fs))" by (simp add: initial_def)
      with q show ?thesis by (rule quietD_dom)
    qed
    from ends consider
      (raised) ex where "try_body e ?w1 = (Inl ex, w')"
    | (served) "output_file e \<in> dom (files w')"
        "try_body e ?w1 =
           (Inr (FileResponse (output_file e) ''audio/wav''
                   (''speech_'' @ take 8 (uuid4_hex e) @ ''.wav'')
                   [(''Content-Disposition'', ''attachment''), (''Cache-Control'', ''no-cache'')]),
            unlink_quietly (unlink_refused_early e) (temp_file_path e) w')"
      by (auto simp: body_ends_def)
    then show ?thesis
    proof cases
      case raised
      then have "fst (synthesize e t (initial fs)) = Inl (except_clauses e ex)"
        and "snd (synthesize e t (initial fs)) = ?final w'"
        using valid True by (simp_all add: fst_synthesize snd_synthesize)
      then show ?thesis
        using no_unlink kept temp_neq_output [of e] by auto
    next
      case served
      then have "served_path (fst (synthesize e t (initial fs))) = Some (output_file e)"
        and "snd (synthesize e t (initial fs)) =
               ?final (unlink_quietly (unlink_refused_early e) (temp_file_path e) w')"
        using valid True by (simp_all add: fst_synthesize snd_synthesize)
      then show ?thesis
        using no_unlink kept served(1) temp_neq_output [of e] by auto
    qed
  qed
qed

theorem output_artifact_never_deleted_witness:
  "served_path (fst (synthesize linux_host hello_world (initial app_files))) =
     Some (output_file linux_host) \<and>
   output_file linux_host \<in> dom (files (snd (synthesize linux_host hello_world (initial app_files)))) \<and>
   list_all (\<lambda>ev. case ev of Unlink p ok \<Rightarrow> p = temp_file_path linux_host | _ \<Rightarrow> True)
     (trace (snd (synthesize linux_host hello_world (initial app_files))))"
proof -
  let ?r = "synthesize linux_host hello_world (initial app_files)"
  have h1: "reaches_engine linux_host hello_world app_files"
    by (rule linux_reaches_engine) (simp_all add: linux_host_def)
  have h2: "piper_outcome linux_host = Exited 0 [] []" by (simp add: linux_host_def)
  have h3: "streams_reported linux_host [] []"
    by (simp add: streams_reported_def linux_host_def)
  have h4: "artifact_size linux_host app_files = Some 44100"
    by (simp add: artifact_size_def linux_host_def)
  have h5: "\<not> (44100::nat) < 1000" by simp
  have h6: "size_printed linux_host 44100" by (simp add: size_printed_def linux_host_def)
  have served: "served_path (fst ?r) = Some (output_file linux_host)"
    using success_response [OF h1 h2 h3 h4 h5 h6] by simp
  have all: "\<forall>ev \<in> set (trace (snd ?r)).
               case ev of Unlink p ok \<Rightarrow> p = temp_file_path linux_host | _ \<Rightarrow> True"
  proof
    fix ev assume ev: "ev \<in> set (trace (snd ?r))"
    show "case ev of Unlink p ok \<Rightarrow> p = temp_file_path linux_host | _ \<Rightarrow> True"
    proof (cases ev)
      case (Unlink p ok)
      with ev have "Unlink p ok \<in> set (trace (snd ?r))" by simp
      then have "p = temp_file_path linux_host"
        using output_artifact_never_deleted [of linux_host hello_world app_files] by blast
      with Unlink show ?thesis by simp
    qed simp_all
  qed
  show ?thesis
    using served all output_artifact_never_deleted [of linux_host hello_world app_files]
    by (simp add: list_all_iff)
qed

text \<open>
  C1. In every valid request whose input was staged, created and written, on every way out:
  a removal of the staged file is attempted; the file is really removed at most once; it is
  removed exactly once, and is gone when the handler ends, unless the host refuses the
  removal in the \<open>finally\<close> clause and, on the way that serves the file, the earlier one
  too. A removal that fails (refused by the host, or attempted again after the file is
  gone) raises nothing, and the response is the same whatever the host answers to the
  removals. The claim asks for exactly one removal whenever the file was created: the
  last theorem of the three runs the handler on a request that times out on a host that
  refuses the removal, and on a request whose write is refused after the file was created,
  which happens before the \<open>try\<close> statement, so that the \<open>finally\<close> clause does not run; in
  both the file is created, never removed, and still there at the end.
\<close>

theorem staged_input_deleted_once:
  assumes "strip e t \<noteq> []" and "length t \<le> 1000" and "staged e t"
  shows "CreateTemp (temp_file_path e) \<in> set (trace (snd (synthesize e t (initial fs)))) \<and>
         list_ex is_unlink (trace (snd (synthesize e t (initial fs)))) \<and>
         deletions (temp_file_path e) (trace (snd (synthesize e t (initial fs)))) \<le> 1 \<and>
         (deletions (temp_file_path e) (trace (snd (synthesize e t (initial fs)))) = 1 \<longleftrightarrow>
            \<not> unlink_refused_final e \<or>
            (served_path (fst (synthesize e t (initial fs))) \<noteq> None \<and>
             \<not> unlink_refused_early e)) \<and>
         (deletions (temp_file_path e) (trace (snd (synthesize e t (initial fs)))) = 1 \<longleftrightarrow>
            temp_file_path e \<notin> dom (files (snd (synthesize e t (initial fs))))) \<and>
         (\<forall>a b. fst (synthesize (e\<lparr>unlink_refused_early := a, unlink_refused_final := b\<rparr>) t
                       (initial fs)) = fst (synthesize e t (initial fs)))"
proof -
  let ?n = "deletions (temp_file_path e) (trace (snd (synthesize e t (initial fs))))"
  note r = staged_removals [OF assms, of fs]
  from r have created: "CreateTemp (temp_file_path e) \<in> set (trace (snd (synthesize e t (initial fs))))"
    and tried: "list_ex is_unlink (trace (snd (synthesize e t (initial fs))))"
    by simp_all
  from r have count: "?n =
           (if \<not> unlink_refused_final e \<or>
               (served_path (fst (synthesize e t (initial fs))) \<noteq> None \<and>
                \<not> unlink_refused_early e)
            then 1 else 0)"
    by simp
  from r have there: "temp_file_path e \<in> dom (files (snd (synthesize e t (initial fs)))) \<longleftrightarrow>
            ?n = 0"
    by simp
  from count have le: "?n \<le> 1" by (simp split: if_splits)
  from count have once: "?n = 1 \<longleftrightarrow>
            \<not> unlink_refused_final e \<or>
            (served_path (fst (synthesize e t (initial fs))) \<noteq> None \<and>
             \<not> unlink_refused_early e)"
    by (simp split: if_splits)
  from there le have gone: "?n = 1 \<longleftrightarrow>
            temp_file_path e \<notin> dom (files (snd (synthesize e t (initial fs))))"
    by auto
  have same: "\<forall>a b. fst (synthesize (e\<lparr>unlink_refused_early := a, unlink_refused_final := b\<rparr>) t
                       (initial fs)) = fst (synthesize e t (initial fs))"
    by (simp add: response_ignores_refusal)
  from created tried le once gone same show ?thesis by blast
qed

theorem staged_input_deleted_once_witness:
  "strip linux_host hello_world \<noteq> [] \<and> length hello_world \<le> 1000 \<and>
   staged linux_host hello_world \<and>
   deletions (temp_file_path linux_host)
     (trace (snd (synthesize linux_host hello_world (initial app_files)))) = 1 \<and>
   temp_file_path linux_host \<notin>
     dom (files (snd (synthesize linux_host hello_world (initial app_files)))) \<and>
   fst (synthesize (linux_host\<lparr>unlink_refused_early := True, unlink_refused_final := True\<rparr>)
          hello_world (initial app_files)) =
     fst (synthesize linux_host hello_world (initial app_files))"
proof -
  have h1: "strip linux_host hello_world \<noteq> []"
    by (rule linux_valid_text) (simp add: linux_host_def)
  have h2: "length hello_world \<le> 1000" by (simp add: hello_world_def)
  have h3: "staged linux_host hello_world"
    by (simp add: staged_def linux_host_def encode_error_def surrogate_def hello_world_def)
  have h4: "\<not> unlink_refused_final linux_host" by (simp add: linux_host_def)
  show ?thesis
    using h1 h2 h3 h4 staged_input_deleted_once [OF h1 h2 h3, of app_files] by blast
qed

theorem staged_input_left_behind:
  "CreateTemp (temp_file_path (linux_host\<lparr>piper_outcome := TimedOut, unlink_refused_final := True\<rparr>))
     \<in> set (trace (snd (synthesize
                           (linux_host\<lparr>piper_outcome := TimedOut, unlink_refused_final := True\<rparr>)
                           hello_world (initial app_files)))) \<and>
   deletions (temp_file_path (linux_host\<lparr>piper_outcome := TimedOut, unlink_refused_final := True\<rparr>))
     (trace (snd (synthesize
                    (linux_host\<lparr>piper_outcome := TimedOut, unlink_refused_final := True\<rparr>)
                    hello_world (initial app_files)))) = 0 \<and>
   temp_file_path (linux_host\<lparr>piper_outcome := TimedOut, unlink_refused_final := True\<rparr>)
     \<in> dom (files (snd (synthesize
                           (linux_host\<lparr>piper_outcome := TimedOut, unlink_refused_final := True\<rparr>)
                           hello_world (initial app_files)))) \<and>
   fst (synthesize (linux_host\<lparr>piper_outcome := TimedOut, unlink_refused_final := True\<rparr>)
          hello_world (initial app_files)) =
     Inl (HTTPException 500 ''Speech synthesis timed out'') \<and>
   synthesize (linux_host\<lparr>write_error := Some ''[Errno 28] No space left on device''\<rparr>)
     hello_world (initial app_files) =
     (Inl (OtherError ''[Errno 28] No space left on device''),
      \<lparr>files = app_files(''/tmp/tmpq3x8k2vd.txt'' \<mapsto> \<lparr>fsize = 0, fexec = False\<rparr>),
       trace = [CreateTemp ''/tmp/tmpq3x8k2vd.txt'',
                WriteText ''/tmp/tmpq3x8k2vd.txt'' hello_world]\<rparr>) \<and>
   deletions ''/tmp/tmpq3x8k2vd.txt''
     [CreateTemp ''/tmp/tmpq3x8k2vd.txt'', WriteText ''/tmp/tmpq3x8k2vd.txt'' hello_world] = 0"
proof -
  let ?e = "linux_host\<lparr>piper_outcome := TimedOut, unlink_refused_final := True\<rparr>"
  let ?e' = "linux_host\<lparr>write_error := Some ''[Errno 28] No space left on device''\<rparr>"
  have h1: "reaches_engine ?e hello_world app_files"
    by (rule linux_reaches_engine) (simp_all add: linux_host_def)
  have h2: "piper_outcome ?e = TimedOut" by simp
  have resp: "fst (synthesize ?e hello_world (initial app_files)) =
                Inl (HTTPException 500 ''Speech synthesis timed out'')"
    using h1 h2 by (rule timeout_response)
  note r = reaches_engineD [OF h1]
  have first: "CreateTemp (temp_file_path ?e)
       \<in> set (trace (snd (synthesize ?e hello_world (initial app_files)))) \<and>
     deletions (temp_file_path ?e)
       (trace (snd (synthesize ?e hello_world (initial app_files)))) = 0 \<and>
     temp_file_path ?e \<in> dom (files (snd (synthesize ?e hello_world (initial app_files))))"
    using staged_removals [OF r(1-3), of app_files] resp by simp
  have v: "strip ?e' hello_world \<noteq> []"
    by (rule linux_valid_text) (simp add: linux_host_def)
  have l: "length hello_world \<le> 1000" by (simp add: hello_world_def)
  have t: "temp_file_path ?e' = ''/tmp/tmpq3x8k2vd.txt''"
    by (simp add: temp_file_path_def linux_host_def)
  have "synthesize ?e' hello_world (initial app_files) =
      (Inl (OtherError ''[Errno 28] No space left on device''),
       \<lparr>files = app_files(temp_file_path ?e' \<mapsto> \<lparr>fsize = 0, fexec = False\<rparr>),
        trace = [CreateTemp (temp_file_path ?e'), WriteText (temp_file_path ?e') hello_world]\<rparr>)"
    using v l
    by (rule write_fails_response)
      (simp_all add: linux_host_def encode_error_def surrogate_def hello_world_def)
  then have second: "synthesize ?e' hello_world (initial app_files) =
      (Inl (OtherError ''[Errno 28] No space left on device''),
       \<lparr>files = app_files(''/tmp/tmpq3x8k2vd.txt'' \<mapsto> \<lparr>fsize = 0, fexec = False\<rparr>),
        trace = [CreateTemp ''/tmp/tmpq3x8k2vd.txt'',
                 WriteText ''/tmp/tmpq3x8k2vd.txt'' hello_world]\<rparr>)"
    unfolding t .
  have none: "deletions ''/tmp/tmpq3x8k2vd.txt''
     [CreateTemp ''/tmp/tmpq3x8k2vd.txt'', WriteText ''/tmp/tmpq3x8k2vd.txt'' hello_world] = 0"
    by simp
  from first resp second none show ?thesis by blast
qed

end
